theory Spec2Isabelle
  imports Main
begin

section \<open>The host object model\<close>

text \<open>
  The expression engine of \<^verbatim>\<open>gtk/gtkexpression.c\<close> sits on GObject: typed values
  (\<^verbatim>\<open>GValue\<close>), objects with named properties and weak references, and closures.
  Pointers are addresses (natural numbers) into explicit stores; a pointer that may be
  \<^verbatim>\<open>NULL\<close> is an \<open>option\<close>.
\<close>

type_synonym gtype = nat
type_synonym objref = nat
type_synonym exprref = nat
type_synonym watchref = nat
type_synonym bindref = nat

text \<open>\<^verbatim>\<open>G_TYPE_OBJECT\<close>, the fundamental type number 20 shifted by two bits.\<close>

definition G_TYPE_OBJECT :: gtype where
  "G_TYPE_OBJECT = 80"

text \<open>
  An initialised \<^verbatim>\<open>GValue\<close>. A zero-filled one (\<^verbatim>\<open>G_VALUE_INIT\<close>) is \<open>None\<close> of
  \<open>gvalue option\<close>. An object value carries its type and a pointer that may be null.
\<close>

datatype gvalue =
    GV_Int int
  | GV_String string
  | GV_Object gtype "objref option"

text \<open>
  The fields of \<^verbatim>\<open>GParamSpec\<close> the engine reads, and the two bounds that a
  \<^verbatim>\<open>GParamSpecInt\<close> adds (\<^verbatim>\<open>g_object_set_property\<close> checks an integer against them;
  they mean nothing for a property of another type).
\<close>

record pspec =
  pspec_name :: string
  pspec_owner_type :: gtype
  pspec_value_type :: gtype
  pspec_writable :: bool
  pspec_construct_only :: bool
  pspec_minimum :: int
  pspec_maximum :: int

section \<open>Expressions\<close>

text \<open>
  The four classes of \<^verbatim>\<open>GtkExpression\<close>. The class pointer is the constructor.
  \<^item> \<open>Constant v\<close>: \<^verbatim>\<open>GtkConstantExpression\<close> with its stored value.
  \<^item> \<open>Object t a\<close>: \<^verbatim>\<open>GtkObjectExpression\<close> of value type \<open>t\<close>; its two mutable
    fields (\<^verbatim>\<open>object\<close>, \<^verbatim>\<open>watches\<close>) live in the store at address \<open>a\<close>.
  \<^item> \<open>Property child ps\<close>: \<^verbatim>\<open>GtkPropertyExpression\<close> with \<^verbatim>\<open>expr\<close> (may be null) and
    \<^verbatim>\<open>pspec\<close>.
  \<^item> \<open>Closure t c params\<close>: \<^verbatim>\<open>GtkClosureExpression\<close> of value type \<open>t\<close>, with the
    \<^verbatim>\<open>GClosure\<close> \<open>c\<close> and the array \<^verbatim>\<open>params\<close> (its length is \<^verbatim>\<open>n_params\<close>).
\<close>

datatype expr =
    Constant gvalue
  | Object gtype exprref
  | Property "expr option" pspec
  | Closure gtype nat "expr list"

subsection \<open>Watches, binds and callbacks\<close>

text \<open>
  A callback is a function pointer together with its data pointer. The caller's own
  \<^verbatim>\<open>GtkExpressionNotify\<close> is opaque (\<open>User_notify d\<close>, with \<open>d\<close> its user data); the
  others are the static functions of the file with the data they are registered with:
  \<open>Watch_cb w\<close> is \<^verbatim>\<open>gtk_expression_watch_cb\<close> on the watch \<open>w\<close>,
  \<open>Property_expr_notify_cb w off\<close> is \<^verbatim>\<open>gtk_property_expression_watch_expr_notify_cb\<close>
  and \<open>Closure_notify_cb w off\<close> is \<^verbatim>\<open>gtk_closure_expression_watch_notify_cb\<close> on the
  sub-watch at byte offset \<open>off\<close> of \<^verbatim>\<open>watch->sub\<close>, and \<open>Bind_notify b\<close> is
  \<^verbatim>\<open>gtk_expression_bind_notify\<close> on the bind \<open>b\<close>.
\<close>

datatype callback =
    User_notify nat
  | Watch_cb watchref
  | Property_expr_notify_cb watchref nat
  | Closure_notify_cb watchref nat
  | Bind_notify bindref

text \<open>
  A \<^verbatim>\<open>GDestroyNotify\<close> with its data: the caller's own, or
  \<^verbatim>\<open>gtk_expression_bind_free\<close> on a bind.
\<close>

datatype destroy_notify =
    User_destroy nat
  | Bind_free bindref

text \<open>
  A \<^verbatim>\<open>GWeakNotify\<close> with its data: \<^verbatim>\<open>gtk_object_expression_weak_ref_cb\<close> on an
  object expression, \<^verbatim>\<open>gtk_expression_watch_this_cb\<close> on a watch, or
  \<^verbatim>\<open>invalidate_binds\<close>.
\<close>

datatype weak_notify =
    Object_weak_ref_cb exprref
  | Watch_this_cb watchref
  | Invalidate_binds_cb

text \<open>
  What the code does besides computing: values initialised and released, object
  references taken and dropped, closures invoked, and the calls that leave the engine
  (a callback called, the caller's notify and destroy callbacks run, a property change
  emitted by \<^verbatim>\<open>g_object_set_property\<close>).
\<close>

datatype event =
    Value_init
  | Value_unset gvalue
  | Object_ref objref
  | Object_unref objref
  | Closure_invoke nat "gvalue option list"
  | Called callback
  | Notified nat
  | Destroyed nat
  | Property_notify objref string

text \<open>
  \<^verbatim>\<open>GtkPropertyExpressionWatch\<close>. \<open>pw_expr\<close> holds the two fields of the
  \<^verbatim>\<open>GtkPropertyExpression\<close> that \<^verbatim>\<open>expr\<close> points to. \<open>pw_closure\<close> is the closure around
  \<^verbatim>\<open>gtk_property_expression_watch_notify_cb\<close> and this sub-watch; the model keeps its
  data pointer, or \<open>None\<close> for \<^verbatim>\<open>NULL\<close>.
\<close>

record property_expression_watch =
  pw_notify :: callback
  pw_expr :: "expr option \<times> pspec"
  pw_this :: "objref option"
  pw_closure :: "(watchref \<times> nat) option"

text \<open>
  The three sub-watch structures: \<^verbatim>\<open>GtkObjectExpressionWatch\<close> and
  \<^verbatim>\<open>GtkClosureExpressionWatch\<close> hold \<^verbatim>\<open>notify\<close> and \<^verbatim>\<open>user_data\<close> only.
\<close>

datatype subwatch =
    Object_watch callback
  | Property_watch property_expression_watch
  | Closure_watch callback

text \<open>\<^verbatim>\<open>GtkObjectExpression\<close>: the weakly held object and the list of sub-watches.\<close>

record object_expression =
  oe_object :: "objref option"
  oe_watches :: "(watchref \<times> nat) list"

text \<open>
  \<^verbatim>\<open>GtkExpressionWatch\<close>, with the count of its reference-counted box. \<open>w_sub\<close> is the
  buffer \<^verbatim>\<open>sub\<close>: the sub-watch written at each byte offset (nothing where the buffer
  is still zero), and \<open>w_sub_size\<close> the number of bytes allocated for it.
\<close>

record expression_watch =
  w_expression :: "expr option"
  w_this :: "objref option"
  w_user_destroy :: "destroy_notify option"
  w_notify :: callback
  w_sub :: "nat \<rightharpoonup> subwatch"
  w_sub_size :: nat
  w_ref_count :: nat

text \<open>\<^verbatim>\<open>GtkExpressionBind\<close>.\<close>

record expression_bind =
  b_watch :: "watchref option"
  b_target :: "objref option"
  b_pspec :: pspec

text \<open>
  A live \<^verbatim>\<open>GObject\<close>: its type, its properties (the class's \<^verbatim>\<open>GParamSpec\<close> and the
  current value), its weak references in the order they were registered, and the list
  kept under the data key \<^verbatim>\<open>"gtk-expression-binds"\<close> (empty for \<^verbatim>\<open>NULL\<close>).
\<close>

record gobject =
  g_type :: gtype
  g_properties :: "string \<rightharpoonup> pspec \<times> gvalue"
  g_weak_refs :: "weak_notify list"
  g_binds :: "bindref list"

text \<open>
  A connection of a closure to the \<^verbatim>\<open>notify::detail\<close> signal of an object, with the
  sequential number GObject gives each connection.
\<close>

record signal_handler =
  h_id :: nat
  h_object :: objref
  h_detail :: string
  h_closure :: "watchref \<times> nat"

text \<open>
  The whole state: the stores, the next address the allocator hands out, the connected
  signal handlers and the number the next connection gets, the log of calls that left
  the engine, the subtype relation of the type system (\<^verbatim>\<open>g_type_is_a\<close>) and the
  function each \<^verbatim>\<open>GClosure\<close> computes from its argument array.
\<close>

record state =
  objects :: "objref \<rightharpoonup> gobject"
  object_exprs :: "exprref \<rightharpoonup> object_expression"
  watches :: "watchref \<rightharpoonup> expression_watch"
  binds :: "bindref \<rightharpoonup> expression_bind"
  heap_top :: nat
  handlers :: "signal_handler list"
  handler_seq :: nat
  log :: "event list"
  type_is_a :: "gtype \<Rightarrow> gtype \<Rightarrow> bool"
  callables :: "nat \<Rightarrow> gvalue option list \<Rightarrow> gvalue"

section \<open>is_static\<close>

text \<open>
  \<^verbatim>\<open>gtk_expression_is_static\<close> calls the class's \<^verbatim>\<open>is_static\<close>:
  \<^verbatim>\<open>gtk_constant_expression_is_static\<close> returns \<^verbatim>\<open>TRUE\<close>,
  \<^verbatim>\<open>gtk_object_expression_is_static\<close> and \<^verbatim>\<open>gtk_property_expression_is_static\<close>
  return \<^verbatim>\<open>FALSE\<close>, and \<^verbatim>\<open>gtk_closure_expression_is_static\<close> loops over the
  parameters and returns \<^verbatim>\<open>FALSE\<close> at the first one that is not static.
\<close>

fun gtk_expression_is_static :: "expr \<Rightarrow> bool"
  and gtk_closure_expression_is_static :: "expr list \<Rightarrow> bool"
where
  "gtk_expression_is_static (Constant v) = True"
| "gtk_expression_is_static (Object t a) = False"
| "gtk_expression_is_static (Property child ps) = False"
| "gtk_expression_is_static (Closure t c params) = gtk_closure_expression_is_static params"
| "gtk_closure_expression_is_static [] = True"
| "gtk_closure_expression_is_static (p # params) =
     (if \<not> gtk_expression_is_static p then False
      else gtk_closure_expression_is_static params)"

section \<open>Evaluation\<close>

text \<open>
  An evaluation returns the \<^verbatim>\<open>gboolean\<close>, leaves the caller's \<^verbatim>\<open>GValue\<close> empty or
  initialised, and has effects on the way.
\<close>

record eval_result =
  ret :: bool
  val :: "gvalue option"
  trace :: "event list"

text \<open>\<^verbatim>\<open>g_value_unset\<close>: releases an initialised value; a zero-filled one is left alone.\<close>

definition g_value_unset :: "gvalue option \<Rightarrow> event list" where
  "g_value_unset slot = (case slot of None \<Rightarrow> [] | Some v \<Rightarrow> [Value_unset v])"

text \<open>\<^verbatim>\<open>G_IS_OBJECT\<close> on a non-null pointer: it points to a live object.\<close>

definition G_IS_OBJECT :: "state \<Rightarrow> objref \<Rightarrow> bool" where
  "G_IS_OBJECT s p = (objects s p \<noteq> None)"

text \<open>
  The argument check of the public entry points:
  \<^verbatim>\<open>this_ == NULL || G_IS_OBJECT (this_)\<close>.
\<close>

definition this_is_valid :: "state \<Rightarrow> objref option \<Rightarrow> bool" where
  "this_is_valid s this = (case this of None \<Rightarrow> True | Some p \<Rightarrow> G_IS_OBJECT s p)"

text \<open>
  \<^verbatim>\<open>G_TYPE_CHECK_INSTANCE_TYPE (object, type)\<close>: the instance's type is a \<open>type\<close>.
\<close>

definition G_TYPE_CHECK_INSTANCE_TYPE :: "state \<Rightarrow> objref \<Rightarrow> gtype \<Rightarrow> bool" where
  "G_TYPE_CHECK_INSTANCE_TYPE s p t =
     (case objects s p of None \<Rightarrow> False | Some ob \<Rightarrow> type_is_a s (g_type ob) t)"

text \<open>
  \<^verbatim>\<open>g_object_get_property (object, name, value)\<close> with an empty \<open>value\<close>: GObject looks
  the name up in the object's class; when there is no such property it warns and
  returns with \<open>value\<close> untouched, otherwise it initialises \<open>value\<close> and stores the
  property's current value.
\<close>

definition g_object_get_property :: "state \<Rightarrow> objref \<Rightarrow> string \<Rightarrow> gvalue option" where
  "g_object_get_property s p nm =
     (case objects s p of None \<Rightarrow> None
      | Some ob \<Rightarrow> (case g_properties ob nm of None \<Rightarrow> None | Some (ps, v) \<Rightarrow> Some v))"

text \<open>
  \<^verbatim>\<open>g_value_init_from_instance\<close>: a value of the instance's type holding the instance.
\<close>

definition g_value_init_from_instance :: "state \<Rightarrow> objref \<Rightarrow> gvalue" where
  "g_value_init_from_instance s p =
     GV_Object (case objects s p of None \<Rightarrow> G_TYPE_OBJECT | Some ob \<Rightarrow> g_type ob) (Some p)"

text \<open>\<^verbatim>\<open>gtk_constant_expression_evaluate\<close>: \<^verbatim>\<open>g_value_init\<close>, \<^verbatim>\<open>g_value_copy\<close>, \<^verbatim>\<open>TRUE\<close>.\<close>

definition gtk_constant_expression_evaluate :: "gvalue \<Rightarrow> eval_result" where
  "gtk_constant_expression_evaluate v = \<lparr>ret = True, val = Some v, trace = [Value_init]\<rparr>"

text \<open>
  \<^verbatim>\<open>gtk_object_expression_evaluate\<close>: \<^verbatim>\<open>FALSE\<close> when \<^verbatim>\<open>self->object\<close> is null, otherwise
  a value of the expression's type holding the object.
\<close>

definition gtk_object_expression_evaluate :: "state \<Rightarrow> gtype \<Rightarrow> exprref \<Rightarrow> eval_result" where
  "gtk_object_expression_evaluate s t a =
     (case object_exprs s a of
        None \<Rightarrow> \<lparr>ret = False, val = None, trace = []\<rparr>
      | Some oe \<Rightarrow>
          (case oe_object oe of
             None \<Rightarrow> \<lparr>ret = False, val = None, trace = []\<rparr>
           | Some p \<Rightarrow> \<lparr>ret = True, val = Some (GV_Object t (Some p)), trace = [Value_init]\<rparr>))"

text \<open>
  The part of \<^verbatim>\<open>gtk_property_expression_get_object\<close> after the child expression was
  evaluated successfully into \<^verbatim>\<open>expr_value\<close>: not an object value, a null object and an
  object that is not of the \<^verbatim>\<open>pspec\<close>'s owner type all give \<^verbatim>\<open>NULL\<close>.
\<close>

definition get_object_of_value ::
  "state \<Rightarrow> pspec \<Rightarrow> gvalue option \<Rightarrow> objref option \<times> event list" where
  "get_object_of_value s ps expr_value =
     (case expr_value of
        Some (GV_Object t (Some p)) \<Rightarrow>
          (if \<not> G_TYPE_CHECK_INSTANCE_TYPE s p (pspec_owner_type ps)
           then (None, [Object_ref p] @ g_value_unset expr_value @ [Object_unref p])
           else (Some p, [Object_ref p] @ g_value_unset expr_value))
      | _ \<Rightarrow> (None, g_value_unset expr_value))"

text \<open>
  \<^verbatim>\<open>gtk_expression_evaluate\<close> checks its arguments and calls the class's \<^verbatim>\<open>evaluate\<close>
  (\<open>class_evaluate\<close>): \<^verbatim>\<open>gtk_constant_expression_evaluate\<close>,
  \<^verbatim>\<open>gtk_object_expression_evaluate\<close>, \<^verbatim>\<open>gtk_property_expression_evaluate\<close> (over
  \<^verbatim>\<open>gtk_property_expression_get_object\<close>) and \<^verbatim>\<open>gtk_closure_expression_evaluate\<close>, whose
  loop over the parameters is \<open>closure_evaluate_params\<close>: it returns whether every
  parameter evaluated, the array \<^verbatim>\<open>instance_and_params + 1\<close> and the effects.
\<close>

fun gtk_expression_evaluate :: "state \<Rightarrow> expr \<Rightarrow> objref option \<Rightarrow> eval_result"
  and class_evaluate :: "state \<Rightarrow> expr \<Rightarrow> objref option \<Rightarrow> eval_result"
  and gtk_property_expression_get_object ::
    "state \<Rightarrow> expr option \<Rightarrow> pspec \<Rightarrow> objref option \<Rightarrow> objref option \<times> event list"
  and closure_evaluate_params ::
    "state \<Rightarrow> expr list \<Rightarrow> objref option \<Rightarrow> bool \<times> gvalue option list \<times> event list"
where
  "gtk_expression_evaluate s e this =
     (if \<not> this_is_valid s this
      then \<lparr>ret = False, val = None, trace = []\<rparr>
      else class_evaluate s e this)"
| "class_evaluate s (Constant v) this = gtk_constant_expression_evaluate v"
| "class_evaluate s (Object t a) this = gtk_object_expression_evaluate s t a"
| "class_evaluate s (Property child ps) this =
     (case gtk_property_expression_get_object s child ps this of
        (None, tr) \<Rightarrow> \<lparr>ret = False, val = None, trace = tr\<rparr>
      | (Some object, tr) \<Rightarrow>
          (let v = g_object_get_property s object (pspec_name ps)
           in \<lparr>ret = True, val = v,
               trace = tr @ (if v = None then [] else [Value_init]) @ [Object_unref object]\<rparr>))"
| "class_evaluate s (Closure t c params) this =
     (case closure_evaluate_params s params this of
        (False, vs, tr) \<Rightarrow>
          \<lparr>ret = False, val = None, trace = tr @ concat (map g_value_unset (None # vs))\<rparr>
      | (True, vs, tr) \<Rightarrow>
          (let instance = (case this of
                             Some p \<Rightarrow> g_value_init_from_instance s p
                           | None \<Rightarrow> GV_Object G_TYPE_OBJECT None);
               instance_and_params = Some instance # vs
           in \<lparr>ret = True, val = Some (callables s c instance_and_params),
               trace = tr @ [Value_init, Value_init, Closure_invoke c instance_and_params]
                         @ concat (map g_value_unset instance_and_params)\<rparr>))"
| "gtk_property_expression_get_object s None ps this =
     (case this of Some p \<Rightarrow> (Some p, [Object_ref p]) | None \<Rightarrow> (None, []))"
| "gtk_property_expression_get_object s (Some e) ps this =
     (let r = gtk_expression_evaluate s e this
      in if \<not> ret r then (None, trace r)
         else (case get_object_of_value s ps (val r) of
                 (object, tr) \<Rightarrow> (object, trace r @ tr)))"
| "closure_evaluate_params s [] this = (True, [], [])"
| "closure_evaluate_params s (p # params) this =
     (let r = gtk_expression_evaluate s p this
      in if \<not> ret r then (False, val r # replicate (length params) None, trace r)
         else (case closure_evaluate_params s params this of
                 (ok, vs, tr) \<Rightarrow> (ok, val r # vs, trace r @ tr)))"


section \<open>Failures\<close>

text \<open>
  What C leaves undefined or aborts on is a value of the model: a pointer that does not
  point to what the code reads through it, a write past the end of the buffer
  \<^verbatim>\<open>watch->sub\<close>, a failed \<^verbatim>\<open>g_assert\<close>. Callbacks call callbacks; the depth of such
  calls is bounded by a fuel argument, and running out of it is a failure too.
\<close>

datatype error = Out_of_fuel | Invalid_pointer | Out_of_bounds | Assertion_failed

definition and_then :: "error + 'a \<Rightarrow> ('a \<Rightarrow> error + 'b) \<Rightarrow> error + 'b" where
  "and_then m f = (case m of Inl e \<Rightarrow> Inl e | Inr x \<Rightarrow> f x)"

section \<open>Sizes of the sub-watches\<close>

text \<open>
  \<^verbatim>\<open>sizeof\<close> of the three sub-watch structures on a platform with 8-byte pointers:
  two pointers, five pointers and two pointers (the flexible array member \<^verbatim>\<open>sub\<close> adds
  nothing). Sizes are natural numbers: a tree whose sizes overflow \<^verbatim>\<open>gsize\<close> does not
  fit into memory.
\<close>

definition sizeof_GtkObjectExpressionWatch :: nat where
  "sizeof_GtkObjectExpressionWatch = 16"

definition sizeof_GtkPropertyExpressionWatch :: nat where
  "sizeof_GtkPropertyExpressionWatch = 40"

definition sizeof_GtkClosureExpressionWatch :: nat where
  "sizeof_GtkClosureExpressionWatch = 16"

fun sizeof_subwatch :: "subwatch \<Rightarrow> nat" where
  "sizeof_subwatch (Object_watch cb) = sizeof_GtkObjectExpressionWatch"
| "sizeof_subwatch (Property_watch pwatch) = sizeof_GtkPropertyExpressionWatch"
| "sizeof_subwatch (Closure_watch cb) = sizeof_GtkClosureExpressionWatch"

text \<open>
  \<^verbatim>\<open>gtk_expression_watch_size\<close> calls the class's \<^verbatim>\<open>watch_size\<close>:
  \<^verbatim>\<open>gtk_expression_watch_size_static\<close> for a constant,
  \<^verbatim>\<open>gtk_object_expression_watch_size\<close>, \<^verbatim>\<open>gtk_property_expression_watch_size\<close> (which
  adds the child's size whenever there is a child) and
  \<^verbatim>\<open>gtk_closure_expression_watch_size\<close>, whose loop adds to \<open>sz\<close> the size of each
  parameter that is not static.
\<close>

fun gtk_expression_watch_size :: "expr \<Rightarrow> nat"
  and gtk_closure_expression_watch_size :: "nat \<Rightarrow> expr list \<Rightarrow> nat"
where
  "gtk_expression_watch_size (Constant v) = 0"
| "gtk_expression_watch_size (Object t a) = sizeof_GtkObjectExpressionWatch"
| "gtk_expression_watch_size (Property None ps) = sizeof_GtkPropertyExpressionWatch"
| "gtk_expression_watch_size (Property (Some e) ps) =
     sizeof_GtkPropertyExpressionWatch + gtk_expression_watch_size e"
| "gtk_expression_watch_size (Closure t c params) =
     gtk_closure_expression_watch_size sizeof_GtkClosureExpressionWatch params"
| "gtk_closure_expression_watch_size sz [] = sz"
| "gtk_closure_expression_watch_size sz (p # params) =
     (if gtk_expression_is_static p then gtk_closure_expression_watch_size sz params
      else gtk_closure_expression_watch_size (sz + gtk_expression_watch_size p) params)"

section \<open>Sub-watches\<close>

text \<open>Reading and writing the sub-watch at an offset of a watch's buffer.\<close>

definition subwatch_at :: "state \<Rightarrow> watchref \<Rightarrow> nat \<Rightarrow> subwatch option" where
  "subwatch_at s w off = (case watches s w of None \<Rightarrow> None | Some watch \<Rightarrow> w_sub watch off)"

definition store_subwatch :: "watchref \<Rightarrow> nat \<Rightarrow> subwatch \<Rightarrow> state \<Rightarrow> error + state" where
  "store_subwatch w off sw s =
     (case watches s w of
        None \<Rightarrow> Inl Invalid_pointer
      | Some watch \<Rightarrow>
          if w_sub_size watch < off + sizeof_subwatch sw then Inl Out_of_bounds
          else Inr (s\<lparr>watches := (watches s)(w \<mapsto> watch\<lparr>w_sub := (w_sub watch)(off \<mapsto> sw)\<rparr>)\<rparr>))"

definition property_watch_at ::
  "state \<Rightarrow> watchref \<Rightarrow> nat \<Rightarrow> error + property_expression_watch" where
  "property_watch_at s w off =
     (case subwatch_at s w off of Some (Property_watch pwatch) \<Rightarrow> Inr pwatch
      | _ \<Rightarrow> Inl Invalid_pointer)"

text \<open>
  \<^verbatim>\<open>g_object_weak_ref\<close> appends to the object's weak references and
  \<^verbatim>\<open>g_object_weak_unref\<close> removes the first that matches.
\<close>

definition g_object_weak_ref :: "objref \<Rightarrow> weak_notify \<Rightarrow> state \<Rightarrow> state" where
  "g_object_weak_ref p n s =
     (case objects s p of None \<Rightarrow> s
      | Some ob \<Rightarrow> s\<lparr>objects := (objects s)(p \<mapsto> ob\<lparr>g_weak_refs := g_weak_refs ob @ [n]\<rparr>)\<rparr>)"

definition g_object_weak_unref :: "objref \<Rightarrow> weak_notify \<Rightarrow> state \<Rightarrow> state" where
  "g_object_weak_unref p n s =
     (case objects s p of None \<Rightarrow> s
      | Some ob \<Rightarrow> s\<lparr>objects := (objects s)(p \<mapsto> ob\<lparr>g_weak_refs := remove1 n (g_weak_refs ob)\<rparr>)\<rparr>)"

subsection \<open>Object expressions\<close>

text \<open>
  \<^verbatim>\<open>gtk_object_expression_new\<close>: refuses what is not an object; otherwise allocates the
  expression with the object's type, stores the pointer and registers
  \<^verbatim>\<open>gtk_object_expression_weak_ref_cb\<close> as a weak reference on the object.
\<close>

definition gtk_object_expression_new :: "objref \<Rightarrow> state \<Rightarrow> expr option \<times> state" where
  "gtk_object_expression_new object s =
     (case objects s object of
        None \<Rightarrow> (None, s)
      | Some ob \<Rightarrow>
          (let a = heap_top s;
               s1 = s\<lparr>object_exprs := (object_exprs s)(a \<mapsto> \<lparr>oe_object = Some object, oe_watches = []\<rparr>),
                      heap_top := Suc a\<rparr>
           in (Some (Object (g_type ob) a), g_object_weak_ref object (Object_weak_ref_cb a) s1)))"

text \<open>
  \<^verbatim>\<open>gtk_object_expression_watch\<close> fills the sub-watch and prepends it to
  \<^verbatim>\<open>self->watches\<close>; \<^verbatim>\<open>gtk_object_expression_unwatch\<close> removes it from the list.
\<close>

definition gtk_object_expression_watch ::
  "exprref \<Rightarrow> watchref \<Rightarrow> nat \<Rightarrow> callback \<Rightarrow> state \<Rightarrow> error + state" where
  "gtk_object_expression_watch a w off cb s =
     and_then (store_subwatch w off (Object_watch cb) s) (\<lambda>s1.
       case object_exprs s1 a of
         None \<Rightarrow> Inl Invalid_pointer
       | Some self \<Rightarrow>
           Inr (s1\<lparr>object_exprs :=
                      (object_exprs s1)(a \<mapsto> self\<lparr>oe_watches := (w, off) # oe_watches self\<rparr>)\<rparr>))"

definition gtk_object_expression_unwatch ::
  "exprref \<Rightarrow> watchref \<Rightarrow> nat \<Rightarrow> state \<Rightarrow> error + state" where
  "gtk_object_expression_unwatch a w off s =
     (case object_exprs s a of
        None \<Rightarrow> Inl Invalid_pointer
      | Some self \<Rightarrow>
          Inr (s\<lparr>object_exprs :=
                    (object_exprs s)(a \<mapsto> self\<lparr>oe_watches := remove1 (w, off) (oe_watches self)\<rparr>)\<rparr>))"

subsection \<open>Property expressions\<close>

text \<open>
  \<^verbatim>\<open>gtk_property_expression_watch_destroy_closure\<close>: nothing when \<^verbatim>\<open>closure\<close> is null;
  otherwise the closure is invalidated, which disconnects it, and the field is cleared.
\<close>

definition gtk_property_expression_watch_destroy_closure ::
  "watchref \<Rightarrow> nat \<Rightarrow> state \<Rightarrow> error + state" where
  "gtk_property_expression_watch_destroy_closure w off s =
     and_then (property_watch_at s w off) (\<lambda>pwatch.
       case pw_closure pwatch of
         None \<Rightarrow> Inr s
       | Some c \<Rightarrow>
           store_subwatch w off (Property_watch (pwatch\<lparr>pw_closure := None\<rparr>))
             (s\<lparr>handlers := filter (\<lambda>h. h_closure h \<noteq> c) (handlers s)\<rparr>))"

text \<open>
  \<^verbatim>\<open>gtk_property_expression_watch_create_closure\<close>: nothing when the source object
  cannot be resolved; otherwise a new closure is connected to \<^verbatim>\<open>notify::name\<close> of the
  object, after the handlers that are connected already, and stored in the sub-watch.
\<close>

definition gtk_property_expression_watch_create_closure ::
  "watchref \<Rightarrow> nat \<Rightarrow> state \<Rightarrow> error + state" where
  "gtk_property_expression_watch_create_closure w off s =
     and_then (property_watch_at s w off) (\<lambda>pwatch.
       case fst (gtk_property_expression_get_object s (fst (pw_expr pwatch))
                   (snd (pw_expr pwatch)) (pw_this pwatch)) of
         None \<Rightarrow> Inr s
       | Some object \<Rightarrow>
           store_subwatch w off (Property_watch (pwatch\<lparr>pw_closure := Some (w, off)\<rparr>))
             (s\<lparr>handlers := handlers s @
                   [\<lparr>h_id = handler_seq s, h_object = object,
                     h_detail = pspec_name (snd (pw_expr pwatch)), h_closure = (w, off)\<rparr>],
                handler_seq := Suc (handler_seq s)\<rparr>))"

subsection \<open>Installing and removing sub-watches\<close>

text \<open>
  \<^verbatim>\<open>gtk_expression_subwatch_init\<close> calls the class's \<^verbatim>\<open>watch\<close> on the sub-watch at
  offset \<open>off\<close> of the watch \<open>w\<close>: \<^verbatim>\<open>gtk_expression_watch_static\<close> does nothing,
  \<^verbatim>\<open>gtk_object_expression_watch\<close> is above, \<^verbatim>\<open>gtk_property_expression_watch\<close> fills its
  header, installs a child that is not static at \<^verbatim>\<open>pwatch->sub\<close> and creates the
  closure, and \<^verbatim>\<open>gtk_closure_expression_watch\<close> fills its header and walks the
  parameters (\<open>gtk_closure_expression_watch\<close> below is its loop, \<open>sub\<close> the running
  offset).
\<close>

fun gtk_expression_subwatch_init ::
    "expr \<Rightarrow> watchref \<Rightarrow> nat \<Rightarrow> objref option \<Rightarrow> callback \<Rightarrow> state \<Rightarrow> error + state"
  and gtk_closure_expression_watch ::
    "expr list \<Rightarrow> watchref \<Rightarrow> nat \<Rightarrow> nat \<Rightarrow> objref option \<Rightarrow> state \<Rightarrow> error + state"
where
  "gtk_expression_subwatch_init (Constant v) w off this cb s = Inr s"
| "gtk_expression_subwatch_init (Object t a) w off this cb s =
     gtk_object_expression_watch a w off cb s"
| "gtk_expression_subwatch_init (Property child ps) w off this cb s =
     and_then
       (store_subwatch w off
          (Property_watch \<lparr>pw_notify = cb, pw_expr = (child, ps), pw_this = this,
                           pw_closure = None\<rparr>) s)
       (\<lambda>s1. and_then
          (case child of
             None \<Rightarrow> Inr s1
           | Some e \<Rightarrow>
               if gtk_expression_is_static e then Inr s1
               else gtk_expression_subwatch_init e w (off + sizeof_GtkPropertyExpressionWatch)
                      this (Property_expr_notify_cb w off) s1)
          (gtk_property_expression_watch_create_closure w off))"
| "gtk_expression_subwatch_init (Closure t c params) w off this cb s =
     and_then (store_subwatch w off (Closure_watch cb) s)
       (gtk_closure_expression_watch params w off (off + sizeof_GtkClosureExpressionWatch) this)"
| "gtk_closure_expression_watch [] w off sub this s = Inr s"
| "gtk_closure_expression_watch (p # params) w off sub this s =
     (if gtk_expression_is_static p then gtk_closure_expression_watch params w off sub this s
      else and_then (gtk_expression_subwatch_init p w sub this (Closure_notify_cb w off) s)
             (gtk_closure_expression_watch params w off (sub + gtk_expression_watch_size p) this))"

text \<open>
  \<^verbatim>\<open>gtk_expression_subwatch_finish\<close> calls the class's \<^verbatim>\<open>unwatch\<close>:
  \<^verbatim>\<open>gtk_expression_unwatch_static\<close>, \<^verbatim>\<open>gtk_object_expression_unwatch\<close>,
  \<^verbatim>\<open>gtk_property_expression_unwatch\<close> and \<^verbatim>\<open>gtk_closure_expression_unwatch\<close> with its loop.
\<close>

fun gtk_expression_subwatch_finish :: "expr \<Rightarrow> watchref \<Rightarrow> nat \<Rightarrow> state \<Rightarrow> error + state"
  and gtk_closure_expression_unwatch :: "expr list \<Rightarrow> watchref \<Rightarrow> nat \<Rightarrow> state \<Rightarrow> error + state"
where
  "gtk_expression_subwatch_finish (Constant v) w off s = Inr s"
| "gtk_expression_subwatch_finish (Object t a) w off s = gtk_object_expression_unwatch a w off s"
| "gtk_expression_subwatch_finish (Property child ps) w off s =
     and_then (gtk_property_expression_watch_destroy_closure w off s)
       (\<lambda>s1. case child of
                None \<Rightarrow> Inr s1
              | Some e \<Rightarrow>
                  if gtk_expression_is_static e then Inr s1
                  else gtk_expression_subwatch_finish e w
                         (off + sizeof_GtkPropertyExpressionWatch) s1)"
| "gtk_expression_subwatch_finish (Closure t c params) w off s =
     gtk_closure_expression_unwatch params w (off + sizeof_GtkClosureExpressionWatch) s"
| "gtk_closure_expression_unwatch [] w sub s = Inr s"
| "gtk_closure_expression_unwatch (p # params) w sub s =
     (if gtk_expression_is_static p then gtk_closure_expression_unwatch params w sub s
      else and_then (gtk_expression_subwatch_finish p w sub s)
             (gtk_closure_expression_unwatch params w (sub + gtk_expression_watch_size p)))"

section \<open>Binds: release\<close>

text \<open>
  \<^verbatim>\<open>gtk_expression_bind_free\<close>, the destroy notify of a bind's watch. While the target
  lives, the bind is taken off the target's list (and \<^verbatim>\<open>invalidate_binds\<close> off the
  target when the list becomes empty) and freed; after the target was invalidated only
  \<^verbatim>\<open>bind->watch\<close> is cleared.
\<close>

definition gtk_expression_bind_free :: "bindref \<Rightarrow> state \<Rightarrow> error + state" where
  "gtk_expression_bind_free b s =
     (case binds s b of
        None \<Rightarrow> Inl Invalid_pointer
      | Some bind \<Rightarrow>
          (case b_target bind of
             Some target \<Rightarrow>
               (case objects s target of
                  None \<Rightarrow> Inl Invalid_pointer
                | Some ob \<Rightarrow>
                    (let bs = remove1 b (g_binds ob);
                         s1 = s\<lparr>objects := (objects s)(target \<mapsto> ob\<lparr>g_binds := bs\<rparr>)\<rparr>;
                         s2 = (if bs \<noteq> [] then s1
                               else g_object_weak_unref target Invalidate_binds_cb s1)
                     in Inr (s2\<lparr>binds := (binds s2)(b := None)\<rparr>)))
           | None \<Rightarrow> Inr (s\<lparr>binds := (binds s)(b \<mapsto> bind\<lparr>b_watch := None\<rparr>)\<rparr>)))"

text \<open>Calling a destroy notify: the caller's own leaves an entry in the log.\<close>

definition call_destroy :: "destroy_notify \<Rightarrow> state \<Rightarrow> error + state" where
  "call_destroy d s =
     (case d of
        User_destroy x \<Rightarrow> Inr (s\<lparr>log := log s @ [Destroyed x]\<rparr>)
      | Bind_free b \<Rightarrow> gtk_expression_bind_free b s)"

section \<open>Watches\<close>

definition gtk_expression_watch_is_watching :: "expression_watch \<Rightarrow> bool" where
  "gtk_expression_watch_is_watching watch = (w_expression watch \<noteq> None)"

text \<open>
  \<^verbatim>\<open>gtk_expression_watch\<close>: refuses a \<open>this\<close> that is not an object; otherwise allocates
  the watch with a zeroed buffer of \<^verbatim>\<open>gtk_expression_watch_size (self)\<close> bytes and one
  reference, fills its fields, registers \<^verbatim>\<open>gtk_expression_watch_this_cb\<close> on \<open>this\<close>
  and installs the sub-watches at offset 0 with \<^verbatim>\<open>gtk_expression_watch_cb\<close>.
\<close>

definition gtk_expression_watch ::
  "expr \<Rightarrow> objref option \<Rightarrow> callback \<Rightarrow> destroy_notify option \<Rightarrow> state
   \<Rightarrow> error + (watchref option \<times> state)" where
  "gtk_expression_watch self this notify user_destroy s =
     (if \<not> this_is_valid s this then Inr (None, s)
      else
        (let w = heap_top s;
             s1 = s\<lparr>watches := (watches s)(w \<mapsto>
                      \<lparr>w_expression = Some self, w_this = this, w_user_destroy = user_destroy,
                       w_notify = notify, w_sub = Map.empty,
                       w_sub_size = gtk_expression_watch_size self, w_ref_count = 1\<rparr>),
                    heap_top := Suc w\<rparr>;
             s2 = (case this of
                     Some p \<Rightarrow> g_object_weak_ref p (Watch_this_cb w) s1
                   | None \<Rightarrow> s1)
         in and_then (gtk_expression_subwatch_init self w 0 this (Watch_cb w) s2)
              (\<lambda>s3. Inr (Some w, s3))))"

text \<open>
  \<^verbatim>\<open>gtk_expression_watch_ref\<close> and \<^verbatim>\<open>gtk_expression_watch_unref\<close>: releasing the last
  reference runs \<^verbatim>\<open>gtk_expression_watch_finalize\<close>, which asserts that the watch is not
  watching, and frees the box.
\<close>

definition gtk_expression_watch_ref :: "watchref \<Rightarrow> state \<Rightarrow> error + state" where
  "gtk_expression_watch_ref w s =
     (case watches s w of
        None \<Rightarrow> Inl Invalid_pointer
      | Some watch \<Rightarrow>
          Inr (s\<lparr>watches := (watches s)(w \<mapsto> watch\<lparr>w_ref_count := Suc (w_ref_count watch)\<rparr>)\<rparr>))"

definition gtk_expression_watch_unref :: "watchref \<Rightarrow> state \<Rightarrow> error + state" where
  "gtk_expression_watch_unref w s =
     (case watches s w of
        None \<Rightarrow> Inl Invalid_pointer
      | Some watch \<Rightarrow>
          if 1 < w_ref_count watch
          then Inr (s\<lparr>watches := (watches s)(w \<mapsto> watch\<lparr>w_ref_count := w_ref_count watch - 1\<rparr>)\<rparr>)
          else if gtk_expression_watch_is_watching watch then Inl Assertion_failed
          else Inr (s\<lparr>watches := (watches s)(w := None)\<rparr>))"

text \<open>
  \<^verbatim>\<open>gtk_expression_watch_unwatch\<close>: returns at once when the watch is not watching;
  otherwise removes the sub-watches, drops the weak reference on \<open>this\<close> if it is still
  set, calls the destroy notify if there is one, clears \<^verbatim>\<open>watch->expression\<close> and
  releases the reference the watch holds on itself.
\<close>

definition gtk_expression_watch_unwatch :: "watchref \<Rightarrow> state \<Rightarrow> error + state" where
  "gtk_expression_watch_unwatch w s =
     (case watches s w of
        None \<Rightarrow> Inl Invalid_pointer
      | Some watch \<Rightarrow>
          (case w_expression watch of
             None \<Rightarrow> Inr s
           | Some e \<Rightarrow>
               and_then (gtk_expression_subwatch_finish e w 0 s) (\<lambda>s1.
               and_then (Inr (case w_this watch of
                                Some p \<Rightarrow> g_object_weak_unref p (Watch_this_cb w) s1
                              | None \<Rightarrow> s1)) (\<lambda>s2.
               and_then (case w_user_destroy watch of
                           Some d \<Rightarrow> call_destroy d s2
                         | None \<Rightarrow> Inr s2) (\<lambda>s3.
               and_then (case watches s3 w of
                           None \<Rightarrow> Inl Invalid_pointer
                         | Some watch3 \<Rightarrow>
                             Inr (s3\<lparr>watches := (watches s3)(w \<mapsto> watch3\<lparr>w_expression := None\<rparr>)\<rparr>))
                 (gtk_expression_watch_unref w))))))"

text \<open>
  \<^verbatim>\<open>gtk_expression_watch_evaluate\<close>: \<^verbatim>\<open>FALSE\<close> when the watch is not watching, otherwise
  \<^verbatim>\<open>gtk_expression_evaluate\<close> on \<^verbatim>\<open>watch->expression\<close> and \<^verbatim>\<open>watch->this\<close>.
\<close>

definition gtk_expression_watch_evaluate :: "state \<Rightarrow> watchref \<Rightarrow> error + eval_result" where
  "gtk_expression_watch_evaluate s w =
     (case watches s w of
        None \<Rightarrow> Inl Invalid_pointer
      | Some watch \<Rightarrow>
          (case w_expression watch of
             None \<Rightarrow> Inr \<lparr>ret = False, val = None, trace = []\<rparr>
           | Some e \<Rightarrow> Inr (gtk_expression_evaluate s e (w_this watch))))"

section \<open>Callbacks\<close>

text \<open>
  The functions that call a function pointer take \<open>call\<close>, the meaning of such a call.
  \<^verbatim>\<open>gtk_expression_watch_cb\<close> forwards to the caller's notify while the watch is
  watching.
\<close>

definition gtk_expression_watch_cb ::
  "(callback \<Rightarrow> state \<Rightarrow> error + state) \<Rightarrow> watchref \<Rightarrow> state \<Rightarrow> error + state" where
  "gtk_expression_watch_cb call w s =
     (case watches s w of
        None \<Rightarrow> Inl Invalid_pointer
      | Some watch \<Rightarrow>
          if \<not> gtk_expression_watch_is_watching watch then Inr s
          else call (w_notify watch) s)"

text \<open>
  \<^verbatim>\<open>gtk_expression_watch_this_cb\<close>, the weak notify on \<open>this\<close>: clears \<^verbatim>\<open>watch->this\<close>,
  calls the caller's notify, then \<^verbatim>\<open>gtk_expression_watch_unwatch\<close>.
\<close>

definition gtk_expression_watch_this_cb ::
  "(callback \<Rightarrow> state \<Rightarrow> error + state) \<Rightarrow> watchref \<Rightarrow> state \<Rightarrow> error + state" where
  "gtk_expression_watch_this_cb call w s =
     (case watches s w of
        None \<Rightarrow> Inl Invalid_pointer
      | Some watch \<Rightarrow>
          and_then (call (w_notify watch)
                      (s\<lparr>watches := (watches s)(w \<mapsto> watch\<lparr>w_this := None\<rparr>)\<rparr>))
            (gtk_expression_watch_unwatch w))"

text \<open>
  \<^verbatim>\<open>gtk_object_expression_weak_ref_cb\<close>, the weak notify on the wrapped object: clears
  \<^verbatim>\<open>self->object\<close>, then walks \<^verbatim>\<open>self->watches\<close> and calls each sub-watch's notify.
\<close>

fun notify_object_watches ::
  "(callback \<Rightarrow> state \<Rightarrow> error + state) \<Rightarrow> (watchref \<times> nat) list \<Rightarrow> state \<Rightarrow> error + state"
where
  "notify_object_watches call [] s = Inr s"
| "notify_object_watches call ((w, off) # l) s =
     (case subwatch_at s w off of
        Some (Object_watch cb) \<Rightarrow> and_then (call cb s) (notify_object_watches call l)
      | _ \<Rightarrow> Inl Invalid_pointer)"

definition gtk_object_expression_weak_ref_cb ::
  "(callback \<Rightarrow> state \<Rightarrow> error + state) \<Rightarrow> exprref \<Rightarrow> state \<Rightarrow> error + state" where
  "gtk_object_expression_weak_ref_cb call a s =
     (case object_exprs s a of
        None \<Rightarrow> Inl Invalid_pointer
      | Some self \<Rightarrow>
          notify_object_watches call (oe_watches self)
            (s\<lparr>object_exprs := (object_exprs s)(a \<mapsto> self\<lparr>oe_object := None\<rparr>)\<rparr>))"

text \<open>
  The callbacks of a property sub-watch: \<^verbatim>\<open>gtk_property_expression_watch_notify_cb\<close>
  (the connected closure) forwards; \<^verbatim>\<open>gtk_property_expression_watch_expr_notify_cb\<close>
  (the child changed) destroys the closure, creates it again and forwards.
  \<^verbatim>\<open>gtk_closure_expression_watch_notify_cb\<close> forwards.
\<close>

definition gtk_property_expression_watch_notify_cb ::
  "(callback \<Rightarrow> state \<Rightarrow> error + state) \<Rightarrow> watchref \<Rightarrow> nat \<Rightarrow> state \<Rightarrow> error + state" where
  "gtk_property_expression_watch_notify_cb call w off s =
     and_then (property_watch_at s w off) (\<lambda>pwatch. call (pw_notify pwatch) s)"

definition gtk_property_expression_watch_expr_notify_cb ::
  "(callback \<Rightarrow> state \<Rightarrow> error + state) \<Rightarrow> watchref \<Rightarrow> nat \<Rightarrow> state \<Rightarrow> error + state" where
  "gtk_property_expression_watch_expr_notify_cb call w off s =
     and_then (gtk_property_expression_watch_destroy_closure w off s) (\<lambda>s1.
     and_then (gtk_property_expression_watch_create_closure w off s1) (\<lambda>s2.
     and_then (property_watch_at s2 w off) (\<lambda>pwatch. call (pw_notify pwatch) s2)))"

definition gtk_closure_expression_watch_notify_cb ::
  "(callback \<Rightarrow> state \<Rightarrow> error + state) \<Rightarrow> watchref \<Rightarrow> nat \<Rightarrow> state \<Rightarrow> error + state" where
  "gtk_closure_expression_watch_notify_cb call w off s =
     (case subwatch_at s w off of
        Some (Closure_watch cb) \<Rightarrow> call cb s
      | _ \<Rightarrow> Inl Invalid_pointer)"

section \<open>Binds\<close>

text \<open>
  \<^verbatim>\<open>G_TYPE_INT\<close> and \<^verbatim>\<open>G_TYPE_STRING\<close>, the fundamental type numbers 6 and 16 shifted
  by two bits.
\<close>

definition G_TYPE_INT :: gtype where
  "G_TYPE_INT = 24"

definition G_TYPE_STRING :: gtype where
  "G_TYPE_STRING = 64"

text \<open>
  \<^verbatim>\<open>value_transform_int_string\<close>, the transformation GObject registers from integers
  to strings: \<^verbatim>\<open>g_strdup_printf ("%d", v_int)\<close>.
\<close>

fun decimal :: "nat \<Rightarrow> string" where
  "decimal n =
     (if n < 10 then [''0123456789'' ! n]
      else decimal (n div 10) @ [''0123456789'' ! (n mod 10)])"

definition value_transform_int_string :: "int \<Rightarrow> string" where
  "value_transform_int_string i =
     (if i < 0 then CHR ''-'' # decimal (nat (- i)) else decimal (nat i))"

text \<open>
  \<^verbatim>\<open>g_value_transform (src, dest)\<close> with \<open>dest\<close> initialised to the type \<open>dest_type\<close>;
  \<open>None\<close> is \<^verbatim>\<open>FALSE\<close>. A value whose type is a \<open>dest_type\<close> is copied. Otherwise
  GObject looks for a registered transformation: an integer is printed into a string,
  and between two object types \<^verbatim>\<open>g_value_object_transform_value\<close> keeps the object when
  the instance is a \<open>dest_type\<close> and gives null when it is not. No transformation is
  registered from a string to an integer, or between an object and an integer or a
  string.
\<close>

definition g_value_transform :: "state \<Rightarrow> gvalue \<Rightarrow> gtype \<Rightarrow> gvalue option" where
  "g_value_transform s src dest_type =
     (case src of
        GV_Int i \<Rightarrow>
          if dest_type = G_TYPE_INT then Some (GV_Int i)
          else if dest_type = G_TYPE_STRING then Some (GV_String (value_transform_int_string i))
          else None
      | GV_String str \<Rightarrow> if dest_type = G_TYPE_STRING then Some (GV_String str) else None
      | GV_Object t p \<Rightarrow>
          if dest_type = G_TYPE_INT \<or> dest_type = G_TYPE_STRING then None
          else if type_is_a s t dest_type then Some (GV_Object dest_type p)
          else if type_is_a s t G_TYPE_OBJECT \<and> type_is_a s dest_type G_TYPE_OBJECT
          then Some (GV_Object dest_type
                       (case p of
                          None \<Rightarrow> None
                        | Some object \<Rightarrow>
                            if G_TYPE_CHECK_INSTANCE_TYPE s object dest_type then Some object
                            else None))
          else None)"

text \<open>
  \<^verbatim>\<open>g_param_value_validate (pspec, value)\<close> on a value of the \<^verbatim>\<open>pspec\<close>'s type: \<^verbatim>\<open>TRUE\<close>
  when the value had to be changed to fit. \<^verbatim>\<open>param_int_validate\<close> clamps to the bounds,
  \<^verbatim>\<open>param_string_validate\<close> changes nothing for a \<^verbatim>\<open>pspec\<close> made by
  \<^verbatim>\<open>g_param_spec_string\<close>, \<^verbatim>\<open>param_object_validate\<close> replaces an object that is not of
  the value type by null.
\<close>

definition g_param_value_validate :: "state \<Rightarrow> pspec \<Rightarrow> gvalue \<Rightarrow> bool" where
  "g_param_value_validate s ps v =
     (case v of
        GV_Int i \<Rightarrow> i < pspec_minimum ps \<or> pspec_maximum ps < i
      | GV_String str \<Rightarrow> False
      | GV_Object t p \<Rightarrow>
          (case p of
             None \<Rightarrow> False
           | Some object \<Rightarrow> \<not> G_TYPE_CHECK_INSTANCE_TYPE s object (pspec_value_type ps)))"

text \<open>
  The emission of \<^verbatim>\<open>notify::name\<close> on an object. GObject runs the handlers that were
  connected to the signal with this detail when the emission started, in the order of
  their connection, each one unless it was disconnected in the meantime; a handler
  connected during the emission is not run by it. The closures this file connects are
  around \<^verbatim>\<open>gtk_property_expression_watch_notify_cb\<close> and a sub-watch.
\<close>

fun g_signal_emit_handlers ::
  "(callback \<Rightarrow> state \<Rightarrow> error + state) \<Rightarrow> signal_handler list \<Rightarrow> state \<Rightarrow> error + state"
where
  "g_signal_emit_handlers call [] s = Inr s"
| "g_signal_emit_handlers call (h # hs) s =
     (if h_id h \<in> set (map h_id (handlers s))
      then and_then
             (gtk_property_expression_watch_notify_cb call (fst (h_closure h))
                (snd (h_closure h)) s)
             (g_signal_emit_handlers call hs)
      else g_signal_emit_handlers call hs s)"

definition notify_handlers :: "state \<Rightarrow> objref \<Rightarrow> string \<Rightarrow> signal_handler list" where
  "notify_handlers s object nm =
     filter (\<lambda>h. h_object h = object \<and> h_detail h = nm) (handlers s)"

definition g_signal_emit_notify ::
  "(callback \<Rightarrow> state \<Rightarrow> error + state) \<Rightarrow> objref \<Rightarrow> string \<Rightarrow> state \<Rightarrow> error + state" where
  "g_signal_emit_notify call object nm s =
     g_signal_emit_handlers call (notify_handlers s object nm) s"

text \<open>
  \<^verbatim>\<open>g_object_set_property\<close>, for objects whose class keeps each property as it is set.
  GObject refuses a value that is not initialised, and warns and returns when the
  object has no such property or the property cannot be written. Otherwise
  \<^verbatim>\<open>object_set_property\<close> makes a value of the property's type, transforms the given
  value into it and validates it; it warns and changes nothing when there is no
  transformation or the value is not valid. A valid value is handed to the class, and
  \<^verbatim>\<open>notify::name\<close> is emitted before \<^verbatim>\<open>g_object_set_property\<close> returns. \<open>stored\<close> is
  the state after the class has stored the value.
\<close>

definition stored :: "objref \<Rightarrow> gobject \<Rightarrow> string \<Rightarrow> pspec \<Rightarrow> gvalue \<Rightarrow> state \<Rightarrow> state" where
  "stored object ob nm ps v s =
     s\<lparr>objects := (objects s)(object \<mapsto> ob\<lparr>g_properties := (g_properties ob)(nm \<mapsto> (ps, v))\<rparr>),
       log := log s @ [Property_notify object nm]\<rparr>"

definition g_object_set_property ::
  "(callback \<Rightarrow> state \<Rightarrow> error + state) \<Rightarrow> objref \<Rightarrow> string \<Rightarrow> gvalue option \<Rightarrow> state
   \<Rightarrow> error + state" where
  "g_object_set_property call object nm value s =
     (case value of
        None \<Rightarrow> Inr s
      | Some v \<Rightarrow>
          (case objects s object of
             None \<Rightarrow> Inl Invalid_pointer
           | Some ob \<Rightarrow>
               (case g_properties ob nm of
                  None \<Rightarrow> Inr s
                | Some (ps, old) \<Rightarrow>
                    if \<not> pspec_writable ps \<or> pspec_construct_only ps then Inr s
                    else
                      (case g_value_transform s v (pspec_value_type ps) of
                         None \<Rightarrow> Inr s
                       | Some tmp_value \<Rightarrow>
                           if g_param_value_validate s ps tmp_value then Inr s
                           else g_signal_emit_notify call object nm
                                  (stored object ob nm ps tmp_value s)))))"

text \<open>
  What \<^verbatim>\<open>g_object_set_property\<close> stores in a property with the \<^verbatim>\<open>pspec\<close> \<open>ps\<close> when
  it is given the outcome of an evaluation: nothing after a failed evaluation, which
  does not reach it, for a value left empty, for a value that cannot be transformed
  into the property's type and for one that is not valid; otherwise the transformed
  value.
\<close>

definition accepted_value :: "state \<Rightarrow> pspec \<Rightarrow> eval_result \<Rightarrow> gvalue option" where
  "accepted_value s ps r =
     (if \<not> ret r then None
      else case val r of
             None \<Rightarrow> None
           | Some v \<Rightarrow>
               (case g_value_transform s v (pspec_value_type ps) of
                  None \<Rightarrow> None
                | Some tmp_value \<Rightarrow>
                    if g_param_value_validate s ps tmp_value then None else Some tmp_value))"

text \<open>
  \<^verbatim>\<open>gtk_expression_bind_notify\<close>: returns when the target is gone, returns when the
  watch cannot be evaluated, and otherwise calls \<^verbatim>\<open>g_object_set_property\<close> on the
  target with the value.
\<close>

definition gtk_expression_bind_notify ::
  "(callback \<Rightarrow> state \<Rightarrow> error + state) \<Rightarrow> bindref \<Rightarrow> state \<Rightarrow> error + state" where
  "gtk_expression_bind_notify call b s =
     (case binds s b of
        None \<Rightarrow> Inl Invalid_pointer
      | Some bind \<Rightarrow>
          (case b_target bind of
             None \<Rightarrow> Inr s
           | Some target \<Rightarrow>
               (case b_watch bind of
                  None \<Rightarrow> Inr s
                | Some w \<Rightarrow>
                    and_then (gtk_expression_watch_evaluate s w) (\<lambda>r.
                      if \<not> ret r then Inr s
                      else g_object_set_property call target (pspec_name (b_pspec bind))
                             (val r) s))))"

text \<open>
  \<^verbatim>\<open>gtk_expression_bind\<close>: refuses a target that is not an object, a property the
  target does not have and a property that is not writable or is construct-only.
  Otherwise it allocates the bind, takes the target's list of binds (registering
  \<^verbatim>\<open>invalidate_binds\<close> when there was none), creates the watch with
  \<^verbatim>\<open>gtk_expression_bind_notify\<close> and \<^verbatim>\<open>gtk_expression_bind_free\<close>, puts the bind first in
  the list, and calls \<^verbatim>\<open>gtk_expression_bind_notify\<close> once. It returns \<^verbatim>\<open>bind->watch\<close>.
\<close>

definition gtk_expression_bind ::
  "(callback \<Rightarrow> state \<Rightarrow> error + state) \<Rightarrow> expr \<Rightarrow> objref \<Rightarrow> string \<Rightarrow> objref option \<Rightarrow> state
   \<Rightarrow> error + (watchref option \<times> state)" where
  "gtk_expression_bind call self target property this s =
     (case objects s target of
        None \<Rightarrow> Inr (None, s)
      | Some ob \<Rightarrow>
          (case g_properties ob property of
             None \<Rightarrow> Inr (None, s)
           | Some (ps, v) \<Rightarrow>
               if \<not> (pspec_writable ps \<and> \<not> pspec_construct_only ps) then Inr (None, s)
               else
                 (let b = heap_top s;
                      s1 = s\<lparr>binds := (binds s)(b \<mapsto>
                               \<lparr>b_watch = None, b_target = Some target, b_pspec = ps\<rparr>),
                             heap_top := Suc b,
                             objects := (objects s)(target \<mapsto> ob\<lparr>g_binds := []\<rparr>)\<rparr>;
                      s2 = (if g_binds ob = []
                            then g_object_weak_ref target Invalidate_binds_cb s1 else s1)
                  in and_then
                       (gtk_expression_watch self this (Bind_notify b) (Some (Bind_free b)) s2)
                       (\<lambda>(watch, s3).
                          case (binds s3 b, objects s3 target) of
                            (Some bind, Some ob3) \<Rightarrow>
                              and_then
                                (gtk_expression_bind_notify call b
                                   (s3\<lparr>binds := (binds s3)(b \<mapsto> bind\<lparr>b_watch := watch\<rparr>),
                                       objects := (objects s3)(target \<mapsto>
                                         ob3\<lparr>g_binds := b # g_binds ob\<rparr>)\<rparr>))
                                (\<lambda>s4. Inr (watch, s4))
                          | _ \<Rightarrow> Inl Invalid_pointer))))"

text \<open>
  \<^verbatim>\<open>invalidate_binds\<close>, the weak notify on a target: clears \<^verbatim>\<open>bind->target\<close> of every
  bind in the target's list.
\<close>

fun invalidate_binds_loop :: "bindref list \<Rightarrow> state \<Rightarrow> error + state" where
  "invalidate_binds_loop [] s = Inr s"
| "invalidate_binds_loop (b # l) s =
     (case binds s b of
        None \<Rightarrow> Inl Invalid_pointer
      | Some bind \<Rightarrow>
          invalidate_binds_loop l (s\<lparr>binds := (binds s)(b \<mapsto> bind\<lparr>b_target := None\<rparr>)\<rparr>))"

definition invalidate_binds :: "objref \<Rightarrow> state \<Rightarrow> error + state" where
  "invalidate_binds object s =
     (case objects s object of
        None \<Rightarrow> Inl Invalid_pointer
      | Some ob \<Rightarrow> invalidate_binds_loop (g_binds ob) s)"

text \<open>
  \<^verbatim>\<open>free_binds\<close>, the destroy notify of the target's list: asserts that each bind was
  invalidated, unwatches its watch if it still has one, and frees it.
\<close>

fun free_binds :: "bindref list \<Rightarrow> state \<Rightarrow> error + state" where
  "free_binds [] s = Inr s"
| "free_binds (b # l) s =
     (case binds s b of
        None \<Rightarrow> Inl Invalid_pointer
      | Some bind \<Rightarrow>
          if b_target bind \<noteq> None then Inl Assertion_failed
          else and_then (case b_watch bind of
                           Some w \<Rightarrow> gtk_expression_watch_unwatch w s
                         | None \<Rightarrow> Inr s)
                 (\<lambda>s1. free_binds l (s1\<lparr>binds := (binds s1)(b := None)\<rparr>)))"

section \<open>Calling callbacks\<close>

text \<open>
  A call of a callback with \<open>n\<close> levels of nested calls left. The caller's notify is
  opaque: it leaves an entry in the log.
\<close>

fun invoke :: "nat \<Rightarrow> callback \<Rightarrow> state \<Rightarrow> error + state" where
  "invoke 0 cb s = Inl Out_of_fuel"
| "invoke (Suc n) (User_notify d) s = Inr (s\<lparr>log := log s @ [Notified d]\<rparr>)"
| "invoke (Suc n) (Watch_cb w) s = gtk_expression_watch_cb (invoke n) w s"
| "invoke (Suc n) (Property_expr_notify_cb w off) s =
     gtk_property_expression_watch_expr_notify_cb (invoke n) w off s"
| "invoke (Suc n) (Closure_notify_cb w off) s =
     gtk_closure_expression_watch_notify_cb (invoke n) w off s"
| "invoke (Suc n) (Bind_notify b) s = gtk_expression_bind_notify (invoke n) b s"

text \<open>
  The destruction of an object, as GObject runs it: the weak references are taken off
  the object and notified in the order they were registered, the closures connected
  to the object's signals are disconnected, the data list is cleared (which runs
  \<^verbatim>\<open>free_binds\<close> on a list of binds) and the object is freed.
\<close>

definition call_weak_notify ::
  "(callback \<Rightarrow> state \<Rightarrow> error + state) \<Rightarrow> objref \<Rightarrow> weak_notify \<Rightarrow> state \<Rightarrow> error + state" where
  "call_weak_notify call object n s =
     (case n of
        Object_weak_ref_cb a \<Rightarrow> gtk_object_expression_weak_ref_cb call a s
      | Watch_this_cb w \<Rightarrow> gtk_expression_watch_this_cb call w s
      | Invalidate_binds_cb \<Rightarrow> invalidate_binds object s)"

fun call_weak_notifies ::
  "(callback \<Rightarrow> state \<Rightarrow> error + state) \<Rightarrow> objref \<Rightarrow> weak_notify list \<Rightarrow> state \<Rightarrow> error + state"
where
  "call_weak_notifies call object [] s = Inr s"
| "call_weak_notifies call object (n # ns) s =
     and_then (call_weak_notify call object n s) (call_weak_notifies call object ns)"

definition g_object_destroy ::
  "(callback \<Rightarrow> state \<Rightarrow> error + state) \<Rightarrow> objref \<Rightarrow> state \<Rightarrow> error + state" where
  "g_object_destroy call object s =
     (case objects s object of
        None \<Rightarrow> Inl Invalid_pointer
      | Some ob \<Rightarrow>
          and_then
            (call_weak_notifies call object (g_weak_refs ob)
               (s\<lparr>objects := (objects s)(object \<mapsto> ob\<lparr>g_weak_refs := []\<rparr>)\<rparr>))
            (\<lambda>s1. case objects s1 object of
                     None \<Rightarrow> Inl Invalid_pointer
                   | Some ob1 \<Rightarrow>
                       and_then
                         (free_binds (g_binds ob1)
                            (s1\<lparr>handlers := filter (\<lambda>h. h_object h \<noteq> object) (handlers s1)\<rparr>))
                         (\<lambda>s2. Inr (s2\<lparr>objects := (objects s2)(object := None)\<rparr>))))"

section \<open>Well-formed watches\<close>

text \<open>
  Notions for stating what the sub-watch functions rely on and guarantee. \<open>header\<close>
  is a watch without its buffer; \<open>property_slot\<close> says that the sub-watch at an offset
  is a property sub-watch; \<open>bounded\<close> that the buffer of a watch has at least \<open>n\<close>
  bytes; \<open>allocated\<close> that every object expression of a tree is in the store;
  \<open>installed\<close> that the property sub-watches of a tree are where
  \<^verbatim>\<open>gtk_expression_subwatch_finish\<close> will look for them. \<open>frame\<close> relates two states
  that differ at most in buffers, in lists of sub-watches and in signal handlers;
  \<open>touched_only\<close> adds that the buffers differ at most in the bytes from \<open>lo\<close> up to
  \<open>hi\<close> of the watch \<open>w\<close>, and \<open>kept\<close> that the same offsets hold property
  sub-watches.
\<close>

definition header :: "expression_watch \<Rightarrow> expression_watch" where
  "header watch = watch\<lparr>w_sub := Map.empty\<rparr>"

definition property_slot :: "state \<Rightarrow> watchref \<Rightarrow> nat \<Rightarrow> bool" where
  "property_slot s w off =
     (case subwatch_at s w off of Some (Property_watch pwatch) \<Rightarrow> True | _ \<Rightarrow> False)"

definition bounded :: "state \<Rightarrow> watchref \<Rightarrow> nat \<Rightarrow> bool" where
  "bounded s w n = (case watches s w of None \<Rightarrow> False | Some watch \<Rightarrow> n \<le> w_sub_size watch)"

fun allocated :: "state \<Rightarrow> expr \<Rightarrow> bool"
  and allocated_params :: "state \<Rightarrow> expr list \<Rightarrow> bool"
where
  "allocated s (Constant v) = True"
| "allocated s (Object t a) = (object_exprs s a \<noteq> None)"
| "allocated s (Property None ps) = True"
| "allocated s (Property (Some e) ps) = allocated s e"
| "allocated s (Closure t c params) = allocated_params s params"
| "allocated_params s [] = True"
| "allocated_params s (p # params) = (allocated s p \<and> allocated_params s params)"

fun installed :: "state \<Rightarrow> expr \<Rightarrow> watchref \<Rightarrow> nat \<Rightarrow> bool"
  and installed_params :: "state \<Rightarrow> expr list \<Rightarrow> watchref \<Rightarrow> nat \<Rightarrow> bool"
where
  "installed s (Constant v) w off = True"
| "installed s (Object t a) w off = True"
| "installed s (Property None ps) w off = property_slot s w off"
| "installed s (Property (Some e) ps) w off =
     (property_slot s w off
      \<and> (if gtk_expression_is_static e then True
         else installed s e w (off + sizeof_GtkPropertyExpressionWatch)))"
| "installed s (Closure t c params) w off =
     installed_params s params w (off + sizeof_GtkClosureExpressionWatch)"
| "installed_params s [] w sub = True"
| "installed_params s (p # params) w sub =
     (if gtk_expression_is_static p then installed_params s params w sub
      else installed s p w sub
           \<and> installed_params s params w (sub + gtk_expression_watch_size p))"

definition frame :: "state \<Rightarrow> state \<Rightarrow> bool" where
  "frame s s' =
     (objects s' = objects s \<and> binds s' = binds s \<and> log s' = log s
      \<and> heap_top s' = heap_top s \<and> type_is_a s' = type_is_a s \<and> callables s' = callables s
      \<and> (\<forall>a. map_option oe_object (object_exprs s' a) = map_option oe_object (object_exprs s a))
      \<and> (\<forall>w. map_option header (watches s' w) = map_option header (watches s w)))"

definition touched_only :: "state \<Rightarrow> state \<Rightarrow> watchref \<Rightarrow> nat \<Rightarrow> nat \<Rightarrow> bool" where
  "touched_only s s' w lo hi =
     (frame s s'
      \<and> (\<forall>w' o'. \<not> (w' = w \<and> lo \<le> o' \<and> o' < hi) \<longrightarrow> subwatch_at s' w' o' = subwatch_at s w' o'))"

definition kept :: "state \<Rightarrow> state \<Rightarrow> bool" where
  "kept s s' = (frame s s' \<and> (\<forall>w o'. property_slot s' w o' = property_slot s w o'))"

text \<open>
  Two states with the same values: the same type system and closures, the same live
  objects with the same types and properties, the same wrapped objects. Evaluation
  reads nothing else.
\<close>

definition same_values :: "state \<Rightarrow> state \<Rightarrow> bool" where
  "same_values s s' =
     (type_is_a s' = type_is_a s \<and> callables s' = callables s
      \<and> (\<forall>p. map_option (\<lambda>ob. (g_type ob, g_properties ob)) (objects s' p)
             = map_option (\<lambda>ob. (g_type ob, g_properties ob)) (objects s p))
      \<and> (\<forall>a. map_option oe_object (object_exprs s' a) = map_option oe_object (object_exprs s a)))"

text \<open>
  What \<^verbatim>\<open>gtk_expression_bind_free\<close> reads through its pointers is there: the bind, and
  its target when that is set. A caller's own destroy notify needs nothing; it leaves
  the entry \<open>destroy_log\<close> in the log.
\<close>

definition destroy_ok :: "state \<Rightarrow> destroy_notify option \<Rightarrow> bool" where
  "destroy_ok s d =
     (case d of
        Some (Bind_free b) \<Rightarrow>
          (case binds s b of
             None \<Rightarrow> False
           | Some bind \<Rightarrow>
               (case b_target bind of None \<Rightarrow> True | Some target \<Rightarrow> objects s target \<noteq> None))
      | _ \<Rightarrow> True)"

definition destroy_log :: "destroy_notify option \<Rightarrow> event list" where
  "destroy_log d = (case d of Some (User_destroy x) \<Rightarrow> [Destroyed x] | _ \<Rightarrow> [])"

text \<open>\<^verbatim>\<open>owatch->notify\<close> with its data, read through an entry of \<^verbatim>\<open>self->watches\<close>.\<close>

definition object_watch_notify :: "state \<Rightarrow> watchref \<times> nat \<Rightarrow> callback option" where
  "object_watch_notify s x =
     (case subwatch_at s (fst x) (snd x) of Some (Object_watch cb) \<Rightarrow> Some cb | _ \<Rightarrow> None)"

section \<open>Accounting of values\<close>

text \<open>
  The number of initialised values an effect sequence leaves behind: each
  \<^verbatim>\<open>g_value_init\<close> counts one up, each \<^verbatim>\<open>g_value_unset\<close> of an initialised value one
  down.
\<close>

fun values_held :: "event list \<Rightarrow> int" where
  "values_held [] = 0"
| "values_held (Value_init # es) = values_held es + 1"
| "values_held (Value_unset v # es) = values_held es - 1"
| "values_held (e # es) = values_held es"

section \<open>A small object graph\<close>

text \<open>
  Used to run the definitions: object 1 of type 100 with an integer property
  \<open>width\<close>, object 2 of type 200 with a writable string property \<open>label\<close>, object 3
  of type 300 without properties. Every type is a \<^verbatim>\<open>GObject\<close> and itself, nothing else.
  Closure 7 returns the number of its arguments.
\<close>

definition width_pspec :: pspec where
  "width_pspec = \<lparr>pspec_name = ''width'', pspec_owner_type = 100, pspec_value_type = 24,
                   pspec_writable = True, pspec_construct_only = False,
                   pspec_minimum = 0, pspec_maximum = 10000\<rparr>"

definition label_pspec :: pspec where
  "label_pspec = \<lparr>pspec_name = ''label'', pspec_owner_type = 200, pspec_value_type = 64,
                   pspec_writable = True, pspec_construct_only = False,
                   pspec_minimum = 0, pspec_maximum = 0\<rparr>"

definition example_objects :: "objref \<rightharpoonup> gobject" where
  "example_objects =
     [1 \<mapsto> \<lparr>g_type = 100, g_properties = [''width'' \<mapsto> (width_pspec, GV_Int 42)],
            g_weak_refs = [], g_binds = []\<rparr>,
      2 \<mapsto> \<lparr>g_type = 200, g_properties = [''label'' \<mapsto> (label_pspec, GV_String ''old'')],
            g_weak_refs = [], g_binds = []\<rparr>,
      3 \<mapsto> \<lparr>g_type = 300, g_properties = Map.empty, g_weak_refs = [], g_binds = []\<rparr>]"

definition example_state :: state where
  "example_state =
     \<lparr>objects = example_objects, object_exprs = Map.empty, watches = Map.empty,
      binds = Map.empty, heap_top = 10, handlers = [], handler_seq = 1, log = [],
      type_is_a = (\<lambda>t u. t = u \<or> u = G_TYPE_OBJECT),
      callables = (\<lambda>c args. GV_Int (int (length args)))\<rparr>"


definition object_expr_state :: state where
  "object_expr_state = snd (gtk_object_expression_new 1 example_state)"

definition watched_object_state :: state where
  "watched_object_state =
     snd (projr (gtk_expression_watch (Object 100 10) None (User_notify 6) None
       (snd (projr (gtk_expression_watch (Object 100 10) None (User_notify 5) None
                      object_expr_state)))))"

section \<open>Properties of evaluation and is_static\<close>

declare gtk_expression_evaluate.simps [simp del]

declare decimal.simps [simp del]

lemma values_held_append [simp]: "values_held (xs @ ys) = values_held xs + values_held ys"
  by (induction xs rule: values_held.induct) auto

lemma values_held_unset [simp]:
  "values_held (g_value_unset v) = (if v = None then 0 else - 1)"
  by (simp add: g_value_unset_def split: option.splits)

lemma values_held_unset_all:
  "values_held (concat (map g_value_unset vs)) = - int (length (filter (\<lambda>v. v \<noteq> None) vs))"
  by (induction vs) auto

lemma values_held_get_object_of_value:
  "get_object_of_value s ps v = (ob, tr) \<Longrightarrow> values_held tr = (if v = None then 0 else - 1)"
  by (auto simp: get_object_of_value_def split: option.splits gvalue.splits if_splits)

lemma evaluate_failure_leaves_value_empty:
  "\<not> ret (gtk_expression_evaluate s e this) \<Longrightarrow> val (gtk_expression_evaluate s e this) = None"
proof (cases "this_is_valid s this")
  case False
  then show ?thesis by (simp add: gtk_expression_evaluate.simps)
next
  case True
  assume "\<not> ret (gtk_expression_evaluate s e this)"
  with True have "\<not> ret (class_evaluate s e this)" by (simp add: gtk_expression_evaluate.simps)
  then have "val (class_evaluate s e this) = None"
    by (cases e)
       (auto simp: gtk_constant_expression_evaluate_def gtk_object_expression_evaluate_def Let_def
             split: option.splits prod.splits bool.splits)
  with True show ?thesis by (simp add: gtk_expression_evaluate.simps)
qed

text \<open>
  Every evaluation is neutral on values but for its result: what it initialised on the
  way is released again, and exactly one value is left when the output is set.
\<close>

lemma evaluate_values_held:
  "values_held (trace (gtk_expression_evaluate s e this)) =
     (if val (gtk_expression_evaluate s e this) = None then 0 else 1)"
  "values_held (trace (class_evaluate s e this)) =
     (if val (class_evaluate s e this) = None then 0 else 1)"
  "values_held (snd (gtk_property_expression_get_object s child ps this)) = 0"
  "values_held (snd (snd (closure_evaluate_params s params this))) =
     int (length (filter (\<lambda>v. v \<noteq> None) (fst (snd (closure_evaluate_params s params this)))))"
proof (induction s e this and s e this and s child ps this and s params this
      rule: gtk_expression_evaluate_class_evaluate_gtk_property_expression_get_object_closure_evaluate_params.induct)
  case (1 s e this)
  then show ?case by (simp add: gtk_expression_evaluate.simps)
next
  case (2 s v this)
  then show ?case by (simp add: gtk_constant_expression_evaluate_def)
next
  case (3 s t a this)
  then show ?case by (simp add: gtk_object_expression_evaluate_def split: option.splits)
next
  case (4 s child ps this)
  then show ?case by (auto split: prod.splits option.splits simp: Let_def)
next
  case (5 s t c params this)
  then show ?case
    by (auto split: prod.splits bool.splits simp: Let_def values_held_unset_all)
next
  case (6 s ps this)
  then show ?case by (simp split: option.splits)
next
  case (7 s e ps this)
  then show ?case
    using evaluate_failure_leaves_value_empty [of s e this]
    by (auto simp: Let_def split: prod.splits dest!: values_held_get_object_of_value)
next
  case (8 s this)
  then show ?case by simp
next
  case (9 s p params this)
  then show ?case by (auto simp: Let_def split: prod.splits)
qed

lemma closure_evaluate_params_all:
  "\<forall>p\<in>set params. ret (gtk_expression_evaluate s p this) \<Longrightarrow>
   closure_evaluate_params s params this =
     (True, map (\<lambda>p. val (gtk_expression_evaluate s p this)) params,
      concat (map (\<lambda>p. trace (gtk_expression_evaluate s p this)) params))"
  by (induction params) (auto simp: Let_def)

lemma closure_evaluate_params_stop:
  "k < length params \<Longrightarrow>
   \<forall>i<k. ret (gtk_expression_evaluate s (params ! i) this) \<Longrightarrow>
   \<not> ret (gtk_expression_evaluate s (params ! k) this) \<Longrightarrow>
   closure_evaluate_params s params this =
     (False,
      map (\<lambda>p. val (gtk_expression_evaluate s p this)) (take k params)
        @ replicate (length params - k) None,
      concat (map (\<lambda>p. trace (gtk_expression_evaluate s p this)) (take (Suc k) params)))"
proof (induction params arbitrary: k)
  case Nil
  then show ?case by simp
next
  case (Cons p params)
  show ?case
  proof (cases k)
    case 0
    with Cons.prems have "\<not> ret (gtk_expression_evaluate s p this)" by simp
    then show ?thesis
      using 0 evaluate_failure_leaves_value_empty [of s p this]
      by (simp add: Let_def replicate_Suc [symmetric] del: replicate_Suc)
  next
    case (Suc j)
    with Cons.prems have p: "ret (gtk_expression_evaluate s p this)" by auto
    from Suc Cons.prems have j: "j < length params" by simp
    from Suc Cons.prems have before: "\<forall>i<j. ret (gtk_expression_evaluate s (params ! i) this)"
      by auto
    from Suc Cons.prems have at: "\<not> ret (gtk_expression_evaluate s (params ! j) this)" by simp
    show ?thesis
      using Cons.IH [OF j before at] p Suc by (simp add: Let_def)
  qed
qed

lemma unset_replicate_None [simp]: "concat (map g_value_unset (replicate n None)) = []"
  by (induction n) (auto simp: g_value_unset_def)

lemma closure_is_static_iff:
  "gtk_closure_expression_is_static params = (\<forall>p\<in>set params. gtk_expression_is_static p)"
  by (induction params) auto

lemmas example_defs =
  example_state_def example_objects_def width_pspec_def label_pspec_def
  gtk_expression_evaluate.simps this_is_valid_def G_IS_OBJECT_def
  G_TYPE_CHECK_INSTANCE_TYPE_def g_object_get_property_def g_value_init_from_instance_def
  gtk_constant_expression_evaluate_def gtk_object_expression_evaluate_def
  get_object_of_value_def g_value_unset_def G_TYPE_OBJECT_def Let_def


subsection \<open>Constant expressions\<close>

text \<open>
  Claim C9. For every constant expression and every \<open>this\<close> (null included),
  evaluation succeeds and the output is a copy of the stored value:
  \<^verbatim>\<open>gtk_constant_expression_evaluate\<close> never looks at \<open>this\<close>, and the public
  \<^verbatim>\<open>gtk_expression_evaluate\<close> reaches it for every \<open>this\<close> that passes its argument
  check (null or an object). \<^verbatim>\<open>gtk_constant_expression_is_static\<close> returns true.
\<close>

theorem constant_evaluate_always_succeeds:
  "class_evaluate s (Constant v) this = gtk_constant_expression_evaluate v
   \<and> ret (gtk_constant_expression_evaluate v)
   \<and> val (gtk_constant_expression_evaluate v) = Some v
   \<and> (this_is_valid s this \<longrightarrow>
        ret (gtk_expression_evaluate s (Constant v) this)
        \<and> val (gtk_expression_evaluate s (Constant v) this) = Some v)
   \<and> gtk_expression_is_static (Constant v)"
  by (simp add: gtk_constant_expression_evaluate_def gtk_expression_evaluate.simps)

theorem constant_evaluate_always_succeeds_witness:
  "this_is_valid example_state None \<and> this_is_valid example_state (Some 1)
   \<and> ret (gtk_expression_evaluate example_state (Constant (GV_String ''Hello'')) None)
   \<and> val (gtk_expression_evaluate example_state (Constant (GV_String ''Hello'')) None)
       = Some (GV_String ''Hello'')
   \<and> ret (gtk_expression_evaluate example_state (Constant (GV_Int 5)) (Some 1))
   \<and> val (gtk_expression_evaluate example_state (Constant (GV_Int 5)) (Some 1)) = Some (GV_Int 5)"
  using constant_evaluate_always_succeeds [of example_state "GV_String ''Hello''" None]
        constant_evaluate_always_succeeds [of example_state "GV_Int 5" "Some 1"]
  by (simp add: this_is_valid_def G_IS_OBJECT_def example_state_def example_objects_def)

subsection \<open>is_static\<close>

text \<open>
  Claim C8. \<open>is_static\<close> takes the expression alone (no state, no \<open>this\<close>): a
  closure expression is static exactly when every parameter is, and a property
  expression is never static, also over a static child.
\<close>

theorem is_static_by_shape:
  "gtk_expression_is_static (Closure t c params)
     = (\<forall>p\<in>set params. gtk_expression_is_static p)
   \<and> \<not> gtk_expression_is_static (Property child ps)
   \<and> (gtk_expression_is_static e \<longrightarrow> \<not> gtk_expression_is_static (Property (Some e) ps))"
  by (simp add: closure_is_static_iff)

theorem is_static_by_shape_witness:
  "gtk_expression_is_static (Closure 24 7 [Constant (GV_Int 1), Closure 24 7 []])
   \<and> \<not> gtk_expression_is_static (Closure 24 7 [Constant (GV_Int 1), Property None width_pspec])
   \<and> gtk_expression_is_static (Constant (GV_Object 100 (Some 1)))
   \<and> \<not> gtk_expression_is_static (Property (Some (Constant (GV_Object 100 (Some 1)))) width_pspec)"
  using is_static_by_shape [of 24 7 "[Constant (GV_Int 1), Closure 24 7 []]"
          "Some (Constant (GV_Object 100 (Some 1)))" width_pspec "Constant (GV_Object 100 (Some 1))"]
  by simp

subsection \<open>Property expressions\<close>

text \<open>
  Claim C10. When the child of a property expression evaluates successfully but not
  to a non-null object (a value of another type, an empty value or a null object),
  the property expression fails to evaluate and leaves the output empty; \<open>this\<close> is
  not used in the child's place.
\<close>

theorem property_child_without_object_fails:
  assumes "ret (gtk_expression_evaluate s e this)"
      and "\<not> (\<exists>t p. val (gtk_expression_evaluate s e this) = Some (GV_Object t (Some p)))"
  shows "\<not> ret (gtk_expression_evaluate s (Property (Some e) ps) this)
         \<and> val (gtk_expression_evaluate s (Property (Some e) ps) this) = None"
proof (cases "this_is_valid s this")
  case False
  then show ?thesis by (simp add: gtk_expression_evaluate.simps)
next
  case True
  from assms(2) have "fst (get_object_of_value s ps (val (gtk_expression_evaluate s e this))) = None"
    by (auto simp: get_object_of_value_def split: option.splits gvalue.splits)
  then have "fst (gtk_property_expression_get_object s (Some e) ps this) = None"
    using assms(1) by (auto simp: Let_def split: prod.splits)
  then show ?thesis
    using True by (auto simp: gtk_expression_evaluate.simps split: prod.splits option.splits)
qed

theorem property_child_without_object_fails_witness:
  "ret (gtk_expression_evaluate example_state (Constant (GV_Int 5)) (Some 1))
   \<and> ret (gtk_expression_evaluate example_state (Constant (GV_Object 100 None)) (Some 1))
   \<and> \<not> ret (gtk_expression_evaluate example_state
              (Property (Some (Constant (GV_Int 5))) width_pspec) (Some 1))
   \<and> \<not> ret (gtk_expression_evaluate example_state
              (Property (Some (Constant (GV_Object 100 None))) width_pspec) (Some 1))
   \<and> val (gtk_expression_evaluate example_state (Property None width_pspec) (Some 1))
       = Some (GV_Int 42)"
  using property_child_without_object_fails
          [of example_state "Constant (GV_Int 5)" "Some 1" width_pspec]
        property_child_without_object_fails
          [of example_state "Constant (GV_Object 100 None)" "Some 1" width_pspec]
  by (simp add: example_defs)

text \<open>
  Claim C1, at the input where the code departs from it. A property expression
  without child, for the property \<open>width\<close> of type 100, is evaluated with \<open>this\<close> set
  to object 3: a live object of type 300, which is not of type 100 and has no property
  \<open>width\<close>. \<^verbatim>\<open>gtk_property_expression_get_object\<close> returns \<open>this\<close> without the
  \<^verbatim>\<open>G_TYPE_CHECK_INSTANCE_TYPE\<close> it applies to a child's object, and
  \<^verbatim>\<open>gtk_property_expression_evaluate\<close> returns \<^verbatim>\<open>TRUE\<close> with the value left empty.
  The same object reached through a child expression is refused.
\<close>

theorem property_evaluate_this_without_property:
  "\<not> G_TYPE_CHECK_INSTANCE_TYPE example_state 3 (pspec_owner_type width_pspec)
   \<and> g_object_get_property example_state 3 (pspec_name width_pspec) = None
   \<and> ret (gtk_expression_evaluate example_state (Property None width_pspec) (Some 3))
   \<and> val (gtk_expression_evaluate example_state (Property None width_pspec) (Some 3)) = None
   \<and> \<not> ret (gtk_expression_evaluate example_state
              (Property (Some (Constant (GV_Object 300 (Some 3)))) width_pspec) None)"
  by (simp add: example_defs)

subsection \<open>Closure expressions\<close>

text \<open>
  Claim C3. \<^verbatim>\<open>gtk_closure_expression_evaluate\<close> on \<open>N\<close> parameters. When parameter
  \<open>k\<close> is the first that fails to evaluate, the result is failure with an empty
  output; the effects are those of evaluating the parameters up to \<open>k\<close> followed by
  the release of the values of the parameters before \<open>k\<close>, and nothing else: the
  closure is not invoked, and no value stays initialised. When every parameter
  evaluates, the closure is invoked once on \<open>this\<close> (argument 0) and the parameters'
  values in order (arguments 1 to \<open>N\<close>), and what it returns is the output.
\<close>

theorem closure_evaluate_fail_fast:
  "(\<forall>k < length params.
      (\<forall>i<k. ret (gtk_expression_evaluate s (params ! i) this))
      \<and> \<not> ret (gtk_expression_evaluate s (params ! k) this) \<longrightarrow>
        \<not> ret (class_evaluate s (Closure t c params) this)
        \<and> val (class_evaluate s (Closure t c params) this) = None
        \<and> trace (class_evaluate s (Closure t c params) this) =
            concat (map (\<lambda>p. trace (gtk_expression_evaluate s p this)) (take (Suc k) params))
            @ concat (map (\<lambda>p. g_value_unset (val (gtk_expression_evaluate s p this)))
                       (take k params))
        \<and> values_held (trace (class_evaluate s (Closure t c params) this)) = 0)
   \<and> ((\<forall>p\<in>set params. ret (gtk_expression_evaluate s p this)) \<longrightarrow>
        (let instance = (case this of
                           Some p \<Rightarrow> g_value_init_from_instance s p
                         | None \<Rightarrow> GV_Object G_TYPE_OBJECT None);
             args = Some instance # map (\<lambda>p. val (gtk_expression_evaluate s p this)) params
         in ret (class_evaluate s (Closure t c params) this)
            \<and> val (class_evaluate s (Closure t c params) this) = Some (callables s c args)
            \<and> trace (class_evaluate s (Closure t c params) this) =
                concat (map (\<lambda>p. trace (gtk_expression_evaluate s p this)) params)
                @ [Value_init, Value_init, Closure_invoke c args]
                @ concat (map g_value_unset args)))"
proof (intro conjI allI impI)
  fix k
  assume k: "k < length params"
    and h: "(\<forall>i<k. ret (gtk_expression_evaluate s (params ! i) this))
            \<and> \<not> ret (gtk_expression_evaluate s (params ! k) this)"
  have stop: "closure_evaluate_params s params this =
     (False,
      map (\<lambda>p. val (gtk_expression_evaluate s p this)) (take k params)
        @ replicate (length params - k) None,
      concat (map (\<lambda>p. trace (gtk_expression_evaluate s p this)) (take (Suc k) params)))"
    using closure_evaluate_params_stop [OF k] h by blast
  show "\<not> ret (class_evaluate s (Closure t c params) this)"
    by (simp add: stop)
  show "val (class_evaluate s (Closure t c params) this) = None"
    by (simp add: stop)
  show "trace (class_evaluate s (Closure t c params) this) =
            concat (map (\<lambda>p. trace (gtk_expression_evaluate s p this)) (take (Suc k) params))
            @ concat (map (\<lambda>p. g_value_unset (val (gtk_expression_evaluate s p this)))
                       (take k params))"
    by (simp add: stop g_value_unset_def comp_def)
  have "val (class_evaluate s (Closure t c params) this) = None"
    by (simp add: stop)
  then show "values_held (trace (class_evaluate s (Closure t c params) this)) = 0"
    using evaluate_values_held(2) [of s "Closure t c params" this] by simp
next
  assume "\<forall>p\<in>set params. ret (gtk_expression_evaluate s p this)"
  then show "let instance = (case this of
                           Some p \<Rightarrow> g_value_init_from_instance s p
                         | None \<Rightarrow> GV_Object G_TYPE_OBJECT None);
             args = Some instance # map (\<lambda>p. val (gtk_expression_evaluate s p this)) params
         in ret (class_evaluate s (Closure t c params) this)
            \<and> val (class_evaluate s (Closure t c params) this) = Some (callables s c args)
            \<and> trace (class_evaluate s (Closure t c params) this) =
                concat (map (\<lambda>p. trace (gtk_expression_evaluate s p this)) params)
                @ [Value_init, Value_init, Closure_invoke c args]
                @ concat (map g_value_unset args)"
    by (simp add: closure_evaluate_params_all Let_def)
qed

theorem closure_evaluate_fail_fast_witness:
  "ret (gtk_expression_evaluate example_state (Constant (GV_Int 1)) None)
   \<and> \<not> ret (gtk_expression_evaluate example_state (Property None width_pspec) None)
   \<and> \<not> ret (class_evaluate example_state
              (Closure 24 7 [Constant (GV_Int 1), Property None width_pspec, Constant (GV_Int 2)])
              None)
   \<and> trace (class_evaluate example_state
              (Closure 24 7 [Constant (GV_Int 1), Property None width_pspec, Constant (GV_Int 2)])
              None)
       = [Value_init, Value_unset (GV_Int 1)]
   \<and> ret (class_evaluate example_state (Closure 24 7 [Property None width_pspec]) (Some 1))
   \<and> val (class_evaluate example_state (Closure 24 7 [Property None width_pspec]) (Some 1))
       = Some (GV_Int 2)
   \<and> trace (class_evaluate example_state (Closure 24 7 [Property None width_pspec]) (Some 1))
       = [Object_ref 1, Value_init, Object_unref 1, Value_init, Value_init,
          Closure_invoke 7 [Some (GV_Object 100 (Some 1)), Some (GV_Int 42)],
          Value_unset (GV_Object 100 (Some 1)), Value_unset (GV_Int 42)]"
  using closure_evaluate_fail_fast
          [where s = example_state and this = None and t = 24 and c = 7
             and params = "[Constant (GV_Int 1), Property None width_pspec, Constant (GV_Int 2)]"]
        closure_evaluate_fail_fast
          [where s = example_state and this = "Some 1" and t = 24 and c = 7
             and params = "[Property None width_pspec]"]
  by (simp add: example_defs)

section \<open>The layout of the buffer\<close>

lemmas watch_defs =
  gtk_expression_watch_def store_subwatch_def and_then_def subwatch_at_def
  property_watch_at_def gtk_property_expression_watch_create_closure_def
  gtk_property_expression_watch_destroy_closure_def gtk_object_expression_watch_def
  gtk_object_expression_unwatch_def g_object_weak_ref_def g_object_weak_unref_def
  sizeof_GtkObjectExpressionWatch_def sizeof_GtkPropertyExpressionWatch_def
  sizeof_GtkClosureExpressionWatch_def

lemma frame_refl [simp]: "frame s s"
  by (simp add: frame_def)

lemma frame_trans: "frame s s1 \<Longrightarrow> frame s1 s2 \<Longrightarrow> frame s s2"
  by (simp add: frame_def)

lemma frame_bounded: "frame s s' \<Longrightarrow> bounded s' w n = bounded s w n"
proof -
  assume "frame s s'"
  then have "map_option header (watches s' w) = map_option header (watches s w)"
    by (simp add: frame_def)
  then show ?thesis
    by (cases "watches s w"; cases "watches s' w")
       (auto simp: bounded_def header_def dest: arg_cong [where f = w_sub_size])
qed

lemma frame_allocated_obj:
  "frame s s' \<Longrightarrow> (object_exprs s' a = None) = (object_exprs s a = None)"
proof -
  assume "frame s s'"
  then have "map_option oe_object (object_exprs s' a) = map_option oe_object (object_exprs s a)"
    by (simp add: frame_def)
  then show ?thesis by (cases "object_exprs s a"; cases "object_exprs s' a") auto
qed

lemma frame_allocated:
  "frame s s' \<Longrightarrow> allocated s' e = allocated s e"
  "frame s s' \<Longrightarrow> allocated_params s' params = allocated_params s params"
  by (induction s e and s params rule: allocated_allocated_params.induct)
     (auto simp: frame_allocated_obj)

lemma closure_watch_size_acc:
  "gtk_closure_expression_watch_size sz params
     = sz + gtk_closure_expression_watch_size 0 params"
proof (induction params arbitrary: sz)
  case Nil
  then show ?case by simp
next
  case (Cons p params)
  show ?case
    using Cons [of sz] Cons [of "sz + gtk_expression_watch_size p"]
          Cons [of "gtk_expression_watch_size p"]
    by simp
qed

lemma closure_watch_size_ge: "sz \<le> gtk_closure_expression_watch_size sz params"
  using closure_watch_size_acc [of sz params] by simp

lemma store_subwatch_ok:
  "bounded s w (off + sizeof_subwatch sw) \<Longrightarrow>
   \<exists>s'. store_subwatch w off sw s = Inr s'"
  by (auto simp: bounded_def store_subwatch_def split: option.splits)

lemma store_subwatch_frame:
  "store_subwatch w off sw s = Inr s' \<Longrightarrow> frame s s'"
  by (auto simp: store_subwatch_def frame_def header_def split: option.splits if_splits)

lemma store_subwatch_at:
  "store_subwatch w off sw s = Inr s' \<Longrightarrow>
   subwatch_at s' w' o' = (if w' = w \<and> o' = off then Some sw else subwatch_at s w' o')"
  by (auto simp: store_subwatch_def subwatch_at_def split: option.splits if_splits)

lemma property_watch_at_slot:
  "property_slot s w off \<Longrightarrow> \<exists>pwatch. property_watch_at s w off = Inr pwatch
      \<and> subwatch_at s w off = Some (Property_watch pwatch)"
  by (auto simp: property_slot_def property_watch_at_def split: option.splits subwatch.splits)

lemma destroy_closure_ok:
  assumes "property_slot s w off" "bounded s w (off + sizeof_GtkPropertyExpressionWatch)"
  shows "\<exists>s'. gtk_property_expression_watch_destroy_closure w off s = Inr s'
           \<and> frame s s'
           \<and> (\<forall>w' o'. property_slot s' w' o' = property_slot s w' o')
           \<and> (\<forall>w' o'. \<not> (w' = w \<and> o' = off) \<longrightarrow> subwatch_at s' w' o' = subwatch_at s w' o')"
proof -
  from assms(1) obtain pwatch where pw: "property_watch_at s w off = Inr pwatch"
      "subwatch_at s w off = Some (Property_watch pwatch)"
    using property_watch_at_slot by blast
  show ?thesis
  proof (cases "pw_closure pwatch")
    case None
    then show ?thesis
      using pw by (simp add: gtk_property_expression_watch_destroy_closure_def and_then_def)
  next
    case (Some c)
    let ?s0 = "s\<lparr>handlers := filter (\<lambda>h. h_closure h \<noteq> c) (handlers s)\<rparr>"
    have b: "bounded ?s0 w (off + sizeof_subwatch (Property_watch (pwatch\<lparr>pw_closure := None\<rparr>)))"
      using assms(2) by (simp add: bounded_def)
    from store_subwatch_ok [OF b] obtain s' where
      st: "store_subwatch w off (Property_watch (pwatch\<lparr>pw_closure := None\<rparr>)) ?s0 = Inr s'"
      by blast
    have f0: "frame s ?s0" by (simp add: frame_def)
    have f: "frame s s'" using frame_trans [OF f0 store_subwatch_frame [OF st]] .
    have at: "\<And>w' o'. subwatch_at s' w' o' =
        (if w' = w \<and> o' = off then Some (Property_watch (pwatch\<lparr>pw_closure := None\<rparr>))
         else subwatch_at ?s0 w' o')"
      using store_subwatch_at [OF st] by simp
    have "\<forall>w' o'. property_slot s' w' o' = property_slot s w' o'"
      using at assms(1) by (auto simp: property_slot_def subwatch_at_def)
    moreover have "\<forall>w' o'. \<not> (w' = w \<and> o' = off) \<longrightarrow> subwatch_at s' w' o' = subwatch_at s w' o'"
      using at by (auto simp: subwatch_at_def)
    ultimately show ?thesis
      using pw Some st f
      by (simp add: gtk_property_expression_watch_destroy_closure_def and_then_def)
  qed
qed

lemma create_closure_ok:
  assumes "property_slot s w off" "bounded s w (off + sizeof_GtkPropertyExpressionWatch)"
  shows "\<exists>s'. gtk_property_expression_watch_create_closure w off s = Inr s'
           \<and> frame s s'
           \<and> (\<forall>w' o'. property_slot s' w' o' = property_slot s w' o')
           \<and> (\<forall>w' o'. \<not> (w' = w \<and> o' = off) \<longrightarrow> subwatch_at s' w' o' = subwatch_at s w' o')"
proof -
  from assms(1) obtain pwatch where pw: "property_watch_at s w off = Inr pwatch"
      "subwatch_at s w off = Some (Property_watch pwatch)"
    using property_watch_at_slot by blast
  show ?thesis
  proof (cases "fst (gtk_property_expression_get_object s (fst (pw_expr pwatch))
                   (snd (pw_expr pwatch)) (pw_this pwatch))")
    case None
    then show ?thesis
      using pw by (simp add: gtk_property_expression_watch_create_closure_def and_then_def)
  next
    case (Some object)
    let ?s0 = "s\<lparr>handlers := handlers s @
                   [\<lparr>h_id = handler_seq s, h_object = object,
                     h_detail = pspec_name (snd (pw_expr pwatch)), h_closure = (w, off)\<rparr>],
                handler_seq := Suc (handler_seq s)\<rparr>"
    let ?sw = "Property_watch (pwatch\<lparr>pw_closure := Some (w, off)\<rparr>)"
    have b: "bounded ?s0 w (off + sizeof_subwatch ?sw)"
      using assms(2) by (simp add: bounded_def)
    from store_subwatch_ok [OF b] obtain s' where
      st: "store_subwatch w off ?sw ?s0 = Inr s'"
      by blast
    have f0: "frame s ?s0" by (simp add: frame_def)
    have f: "frame s s'" using frame_trans [OF f0 store_subwatch_frame [OF st]] .
    have at: "\<And>w' o'. subwatch_at s' w' o' =
        (if w' = w \<and> o' = off then Some ?sw else subwatch_at ?s0 w' o')"
      using store_subwatch_at [OF st] by simp
    have "\<forall>w' o'. property_slot s' w' o' = property_slot s w' o'"
      using at assms(1) by (auto simp: property_slot_def subwatch_at_def)
    moreover have "\<forall>w' o'. \<not> (w' = w \<and> o' = off) \<longrightarrow> subwatch_at s' w' o' = subwatch_at s w' o'"
      using at by (auto simp: subwatch_at_def)
    ultimately show ?thesis
      using pw Some st f
      by (simp add: gtk_property_expression_watch_create_closure_def and_then_def)
  qed
qed

lemma installed_cong:
  "(\<forall>o'. off \<le> o' \<and> o' < off + gtk_expression_watch_size e
        \<longrightarrow> property_slot s' w o' = property_slot s w o')
   \<Longrightarrow> installed s' e w off = installed s e w off"
  "(\<forall>o'. sub \<le> o' \<and> o' < gtk_closure_expression_watch_size sub params
        \<longrightarrow> property_slot s' w o' = property_slot s w o')
   \<Longrightarrow> installed_params s' params w sub = installed_params s params w sub"
proof (induction s e w off and s params w sub arbitrary: and rule: installed_installed_params.induct)
  case (1 s v w off)
  then show ?case by simp
next
  case (2 s t a w off)
  then show ?case by simp
next
  case (3 s ps w off)
  then show ?case by (simp add: sizeof_GtkPropertyExpressionWatch_def)
next
  case (4 s e ps w off)
  then show ?case by (auto simp: sizeof_GtkPropertyExpressionWatch_def)
next
  case (5 s t c params w off)
  then show ?case
    using closure_watch_size_acc [of sizeof_GtkClosureExpressionWatch params]
          closure_watch_size_acc [of "off + sizeof_GtkClosureExpressionWatch" params]
    by (auto simp: sizeof_GtkClosureExpressionWatch_def)
next
  case (6 s w sub)
  then show ?case by simp
next
  case (7 s p params w sub)
  show ?case
  proof (cases "gtk_expression_is_static p")
    case True
    with 7 show ?thesis by simp
  next
    case False
    have ge: "sub + gtk_expression_watch_size p
               \<le> gtk_closure_expression_watch_size (sub + gtk_expression_watch_size p) params"
      by (rule closure_watch_size_ge)
    have a: "installed s' p w sub = installed s p w sub"
      using 7(2) [OF False] 7(4) False ge by auto
    have b: "installed_params s' params w (sub + gtk_expression_watch_size p)
             = installed_params s params w (sub + gtk_expression_watch_size p)"
      using 7(3) [OF False] 7(4) False by auto
    show ?thesis using a b False by simp
  qed
qed

lemma touched_only_refl [simp]: "touched_only s s w lo hi"
  by (simp add: touched_only_def)

lemma touched_only_trans:
  "touched_only s s1 w lo1 hi1 \<Longrightarrow> touched_only s1 s2 w lo2 hi2 \<Longrightarrow>
   lo \<le> lo1 \<Longrightarrow> lo \<le> lo2 \<Longrightarrow> hi1 \<le> hi \<Longrightarrow> hi2 \<le> hi \<Longrightarrow>
   touched_only s s2 w lo hi"
  unfolding touched_only_def
  by (metis frame_trans le_trans less_le_trans)

lemma touched_only_store:
  "store_subwatch w off sw s = Inr s' \<Longrightarrow> touched_only s s' w off (Suc off)"
  using store_subwatch_frame [of w off sw s s'] store_subwatch_at [of w off sw s s']
  by (simp add: touched_only_def)

lemma touched_only_slot:
  "touched_only s s' w lo hi \<Longrightarrow> \<not> (lo \<le> o' \<and> o' < hi) \<Longrightarrow>
   property_slot s' w' o' = property_slot s w' o'"
  by (simp add: touched_only_def property_slot_def)

lemma object_watch_ok:
  assumes "object_exprs s a \<noteq> None" "bounded s w (off + sizeof_GtkObjectExpressionWatch)"
  shows "\<exists>s'. gtk_object_expression_watch a w off cb s = Inr s'
           \<and> touched_only s s' w off (Suc off)"
proof -
  have "bounded s w (off + sizeof_subwatch (Object_watch cb))" using assms(2) by simp
  from store_subwatch_ok [OF this] obtain s1 where
    st: "store_subwatch w off (Object_watch cb) s = Inr s1" by blast
  have t1: "touched_only s s1 w off (Suc off)" by (rule touched_only_store [OF st])
  then have "frame s s1" by (simp add: touched_only_def)
  then obtain self where self: "object_exprs s1 a = Some self"
    using assms(1) frame_allocated_obj [of s s1 a] by auto
  let ?s' = "s1\<lparr>object_exprs :=
                (object_exprs s1)(a \<mapsto> self\<lparr>oe_watches := (w, off) # oe_watches self\<rparr>)\<rparr>"
  have "touched_only s1 ?s' w off (Suc off)"
    using self by (auto simp: touched_only_def frame_def subwatch_at_def)
  then have "touched_only s ?s' w off (Suc off)"
    using t1 touched_only_trans by blast
  then show ?thesis
    using st self by (simp add: gtk_object_expression_watch_def and_then_def)
qed

lemma bounded_mono: "bounded s w n \<Longrightarrow> m \<le> n \<Longrightarrow> bounded s w m"
  by (auto simp: bounded_def split: option.splits)

lemma touched_only_bounded: "touched_only s s' w lo hi \<Longrightarrow> bounded s' w' n = bounded s w' n"
  by (simp add: touched_only_def frame_bounded)

lemma touched_only_allocated:
  "touched_only s s' w lo hi \<Longrightarrow> allocated s' e = allocated s e"
  "touched_only s s' w lo hi \<Longrightarrow> allocated_params s' params = allocated_params s params"
  by (simp_all add: touched_only_def frame_allocated)

lemma touched_only_widen:
  "touched_only s s' w lo hi \<Longrightarrow> lo' \<le> lo \<Longrightarrow> hi \<le> hi' \<Longrightarrow> touched_only s s' w lo' hi'"
  by (auto simp: touched_only_def)

lemma subwatch_init_ok:
  "allocated s e \<Longrightarrow> bounded s w (off + gtk_expression_watch_size e) \<Longrightarrow>
   \<exists>s'. gtk_expression_subwatch_init e w off this cb s = Inr s'
      \<and> touched_only s s' w off (off + gtk_expression_watch_size e)
      \<and> installed s' e w off"
  "allocated_params s params \<Longrightarrow>
   bounded s w (gtk_closure_expression_watch_size sub params) \<Longrightarrow>
   \<exists>s'. gtk_closure_expression_watch params w off0 sub this s = Inr s'
      \<and> touched_only s s' w sub (gtk_closure_expression_watch_size sub params)
      \<and> installed_params s' params w sub"
proof (induction e w off this cb s and params w off0 sub this s
       rule: gtk_expression_subwatch_init_gtk_closure_expression_watch.induct)
  case (1 v w off this cb s)
  then show ?case by simp
next
  case (2 t a w off this cb s)
  from 2 obtain s' where
    "gtk_object_expression_watch a w off cb s = Inr s'" "touched_only s s' w off (Suc off)"
    using object_watch_ok [of s a w off cb] by auto
  then show ?case
    using touched_only_widen [of s s' w off "Suc off" off "off + sizeof_GtkObjectExpressionWatch"]
    by (simp add: sizeof_GtkObjectExpressionWatch_def)
next
  case (3 child ps w off this cb s)
  let ?sw = "Property_watch \<lparr>pw_notify = cb, pw_expr = (child, ps), pw_this = this,
                              pw_closure = None\<rparr>"
  let ?P = sizeof_GtkPropertyExpressionWatch
  have size: "gtk_expression_watch_size (Property child ps)
                = ?P + (case child of None \<Rightarrow> 0 | Some e \<Rightarrow> gtk_expression_watch_size e)"
    by (cases child) simp_all
  have P: "?P = 40" by (simp add: sizeof_GtkPropertyExpressionWatch_def)
  have b0: "bounded s w (off + ?P)"
    using "3.prems"(2) size bounded_mono by simp
  then have "bounded s w (off + sizeof_subwatch ?sw)" by simp
  from store_subwatch_ok [OF this] obtain s1 where st: "store_subwatch w off ?sw s = Inr s1"
    by blast
  have t1: "touched_only s s1 w off (Suc off)" by (rule touched_only_store [OF st])
  have slot1: "property_slot s1 w off"
    using store_subwatch_at [OF st, of w off] by (simp add: property_slot_def)
  have "\<exists>s2. (case child of
                 None \<Rightarrow> Inr s1
               | Some e \<Rightarrow>
                   if gtk_expression_is_static e then Inr s1
                   else gtk_expression_subwatch_init e w (off + ?P)
                          this (Property_expr_notify_cb w off) s1) = Inr s2
          \<and> touched_only s1 s2 w (off + ?P) (off + gtk_expression_watch_size (Property child ps))
          \<and> (case child of None \<Rightarrow> True
              | Some e \<Rightarrow> gtk_expression_is_static e \<or> installed s2 e w (off + ?P))"
  proof (cases child)
    case None
    then show ?thesis by simp
  next
    case (Some e)
    show ?thesis
    proof (cases "gtk_expression_is_static e")
      case True
      with Some show ?thesis by simp
    next
      case False
      have a: "allocated s1 e"
        using "3.prems"(1) Some touched_only_allocated(1) [OF t1] by simp
      have b: "bounded s1 w (off + ?P + gtk_expression_watch_size e)"
        using "3.prems"(2) Some touched_only_bounded [OF t1] by (simp add: add.assoc)
      from "3.IH" [OF Some False a b] show ?thesis
        using Some False by (simp add: add.assoc)
    qed
  qed
  then obtain s2 where
    s2: "(case child of
            None \<Rightarrow> Inr s1
          | Some e \<Rightarrow>
              if gtk_expression_is_static e then Inr s1
              else gtk_expression_subwatch_init e w (off + ?P)
                     this (Property_expr_notify_cb w off) s1) = Inr s2"
    and t2: "touched_only s1 s2 w (off + ?P) (off + gtk_expression_watch_size (Property child ps))"
    and i2: "(case child of None \<Rightarrow> True
              | Some e \<Rightarrow> gtk_expression_is_static e \<or> installed s2 e w (off + ?P))"
    by blast
  have slot2: "property_slot s2 w off"
    using touched_only_slot [OF t2, of off w] slot1 P by simp
  have b2: "bounded s2 w (off + ?P)"
    using b0 touched_only_bounded [OF t1] touched_only_bounded [OF t2] by simp
  from create_closure_ok [OF slot2 b2] obtain s' where
    cc: "gtk_property_expression_watch_create_closure w off s2 = Inr s'"
    and f3: "frame s2 s'"
    and slots3: "\<forall>w' o'. property_slot s' w' o' = property_slot s2 w' o'"
    and at3: "\<forall>w' o'. \<not> (w' = w \<and> o' = off) \<longrightarrow> subwatch_at s' w' o' = subwatch_at s2 w' o'"
    by blast
  have t3: "touched_only s2 s' w off (Suc off)"
    using f3 at3 by (auto simp: touched_only_def)
  have t12: "touched_only s s2 w off (off + gtk_expression_watch_size (Property child ps))"
    using touched_only_trans [OF t1 t2] size P by simp
  have t: "touched_only s s' w off (off + gtk_expression_watch_size (Property child ps))"
    using touched_only_trans [OF t12 t3] size P by simp
  have inst: "installed s' (Property child ps) w off"
  proof (cases child)
    case None
    then show ?thesis using slots3 slot2 by simp
  next
    case (Some e)
    have "installed s' e w (off + ?P) = installed s2 e w (off + ?P)"
      by (rule installed_cong(1)) (simp add: slots3)
    then show ?thesis using Some slots3 slot2 i2 by auto
  qed
  show ?case
    using st s2 cc t inst by (simp add: and_then_def)
next
  case (4 t c params w off this cb s)
  let ?C = sizeof_GtkClosureExpressionWatch
  have C: "?C = 16" by (simp add: sizeof_GtkClosureExpressionWatch_def)
  have size: "off + gtk_expression_watch_size (Closure t c params)
                = gtk_closure_expression_watch_size (off + ?C) params"
    using closure_watch_size_acc [of ?C params] closure_watch_size_acc [of "off + ?C" params]
    by simp
  have ge: "off + ?C \<le> off + gtk_expression_watch_size (Closure t c params)"
    using size closure_watch_size_ge [of "off + ?C" params] by simp
  have "bounded s w (off + sizeof_subwatch (Closure_watch cb))"
    using "4.prems"(2) ge bounded_mono by simp
  from store_subwatch_ok [OF this] obtain s1 where
    st: "store_subwatch w off (Closure_watch cb) s = Inr s1" by blast
  have t1: "touched_only s s1 w off (Suc off)" by (rule touched_only_store [OF st])
  have a: "allocated_params s1 params"
    using "4.prems"(1) touched_only_allocated(2) [OF t1] by simp
  have b: "bounded s1 w (gtk_closure_expression_watch_size (off + ?C) params)"
    using "4.prems"(2) size touched_only_bounded [OF t1] by simp
  from "4.IH" [OF a b] obtain s' where
    l: "gtk_closure_expression_watch params w off (off + ?C) this s1 = Inr s'"
    and t2: "touched_only s1 s' w (off + ?C) (gtk_closure_expression_watch_size (off + ?C) params)"
    and i: "installed_params s' params w (off + ?C)"
    by blast
  have "touched_only s s' w off (off + gtk_expression_watch_size (Closure t c params))"
    using touched_only_trans [OF t1 t2] size ge C by simp
  then show ?case using st l i by (simp add: and_then_def)
next
  case (5 w off sub this s)
  then show ?case by simp
next
  case (6 p params w off sub this s)
  show ?case
  proof (cases "gtk_expression_is_static p")
    case True
    with 6 show ?thesis by simp
  next
    case False
    let ?mid = "sub + gtk_expression_watch_size p"
    let ?end = "gtk_closure_expression_watch_size ?mid params"
    have ge: "?mid \<le> ?end" by (rule closure_watch_size_ge)
    have a: "allocated s p" using "6.prems"(1) by simp
    have b: "bounded s w ?mid" using "6.prems"(2) False ge bounded_mono by simp
    from "6.IH"(2) [OF False a b] obtain s1 where
      i1: "gtk_expression_subwatch_init p w sub this (Closure_notify_cb w off) s = Inr s1"
      and t1: "touched_only s s1 w sub ?mid"
      and inst1: "installed s1 p w sub"
      by blast
    have a1: "allocated_params s1 params"
      using "6.prems"(1) touched_only_allocated(2) [OF t1] by simp
    have b1: "bounded s1 w ?end"
      using "6.prems"(2) False touched_only_bounded [OF t1] by simp
    from "6.IH"(3) [OF False a1 b1] obtain s' where
      l: "gtk_closure_expression_watch params w off ?mid this s1 = Inr s'"
      and t2: "touched_only s1 s' w ?mid ?end"
      and inst2: "installed_params s' params w ?mid"
      by blast
    have "installed s' p w sub = installed s1 p w sub"
      by (rule installed_cong(1)) (use touched_only_slot [OF t2] in auto)
    moreover have "touched_only s s' w sub ?end"
      using touched_only_trans [OF t1 t2] ge by simp
    ultimately show ?thesis
      using False i1 l inst1 inst2 by (simp add: and_then_def)
  qed
qed

lemma kept_refl [simp]: "kept s s"
  by (simp add: kept_def)

lemma kept_trans: "kept s s1 \<Longrightarrow> kept s1 s2 \<Longrightarrow> kept s s2"
  using frame_trans by (auto simp: kept_def)

lemma kept_installed:
  "kept s s' \<Longrightarrow> installed s' e w off = installed s e w off"
  "kept s s' \<Longrightarrow> installed_params s' params w sub = installed_params s params w sub"
  by (rule installed_cong; simp add: kept_def)+

lemma object_unwatch_ok:
  assumes "object_exprs s a \<noteq> None"
  shows "\<exists>s'. gtk_object_expression_unwatch a w off s = Inr s' \<and> kept s s'"
proof -
  from assms obtain self where self: "object_exprs s a = Some self" by auto
  let ?s' = "s\<lparr>object_exprs :=
               (object_exprs s)(a \<mapsto> self\<lparr>oe_watches := remove1 (w, off) (oe_watches self)\<rparr>)\<rparr>"
  have "kept s ?s'"
    using self by (auto simp: kept_def frame_def property_slot_def subwatch_at_def)
  then show ?thesis using self by (simp add: gtk_object_expression_unwatch_def)
qed

lemma subwatch_finish_ok:
  "installed s e w off \<Longrightarrow> allocated s e \<Longrightarrow>
   bounded s w (off + gtk_expression_watch_size e) \<Longrightarrow>
   \<exists>s'. gtk_expression_subwatch_finish e w off s = Inr s' \<and> kept s s'"
  "installed_params s params w sub \<Longrightarrow> allocated_params s params \<Longrightarrow>
   bounded s w (gtk_closure_expression_watch_size sub params) \<Longrightarrow>
   \<exists>s'. gtk_closure_expression_unwatch params w sub s = Inr s' \<and> kept s s'"
proof (induction e w off s and params w sub s
       rule: gtk_expression_subwatch_finish_gtk_closure_expression_unwatch.induct)
  case (1 v w off s)
  then show ?case by simp
next
  case (2 t a w off s)
  then show ?case using object_unwatch_ok [of s a w off] by simp
next
  case (3 child ps w off s)
  let ?P = sizeof_GtkPropertyExpressionWatch
  have size: "gtk_expression_watch_size (Property child ps)
                = ?P + (case child of None \<Rightarrow> 0 | Some e \<Rightarrow> gtk_expression_watch_size e)"
    by (cases child) simp_all
  have slot: "property_slot s w off" using "3.prems"(1) by (cases child) simp_all
  have b0: "bounded s w (off + ?P)" using "3.prems"(3) size bounded_mono by simp
  from destroy_closure_ok [OF slot b0] obtain s1 where
    dc: "gtk_property_expression_watch_destroy_closure w off s = Inr s1"
    and k1: "kept s s1"
    by (auto simp: kept_def)
  have f1: "frame s s1" using k1 by (simp add: kept_def)
  show ?case
  proof (cases child)
    case None
    then show ?thesis using dc k1 by (simp add: and_then_def)
  next
    case (Some e)
    show ?thesis
    proof (cases "gtk_expression_is_static e")
      case True
      then show ?thesis using Some dc k1 by (simp add: and_then_def)
    next
      case False
      have i: "installed s1 e w (off + ?P)"
        using "3.prems"(1) Some False kept_installed(1) [OF k1] by simp
      have a: "allocated s1 e" using "3.prems"(2) Some frame_allocated(1) [OF f1] by simp
      have b: "bounded s1 w (off + ?P + gtk_expression_watch_size e)"
        using "3.prems"(3) Some frame_bounded [OF f1] by (simp add: add.assoc)
      from "3.IH" [OF Some False i a b] obtain s' where
        "gtk_expression_subwatch_finish e w (off + ?P) s1 = Inr s'" "kept s1 s'" by blast
      then show ?thesis using Some False dc kept_trans [OF k1] by (simp add: and_then_def)
    qed
  qed
next
  case (4 t c params w off s)
  let ?C = sizeof_GtkClosureExpressionWatch
  have size: "off + gtk_expression_watch_size (Closure t c params)
                = gtk_closure_expression_watch_size (off + ?C) params"
    using closure_watch_size_acc [of ?C params] closure_watch_size_acc [of "off + ?C" params]
    by simp
  show ?case using 4 size by simp
next
  case (5 w sub s)
  then show ?case by simp
next
  case (6 p params w sub s)
  show ?case
  proof (cases "gtk_expression_is_static p")
    case True
    with 6 show ?thesis by simp
  next
    case False
    let ?mid = "sub + gtk_expression_watch_size p"
    let ?end = "gtk_closure_expression_watch_size ?mid params"
    have ge: "?mid \<le> ?end" by (rule closure_watch_size_ge)
    have i: "installed s p w sub" using "6.prems"(1) False by simp
    have a: "allocated s p" using "6.prems"(2) by simp
    have b: "bounded s w ?mid" using "6.prems"(3) False ge bounded_mono by simp
    from "6.IH"(2) [OF False i a b] obtain s1 where
      f: "gtk_expression_subwatch_finish p w sub s = Inr s1" and k1: "kept s s1" by blast
    have f1: "frame s s1" using k1 by (simp add: kept_def)
    have i1: "installed_params s1 params w ?mid"
      using "6.prems"(1) False kept_installed(2) [OF k1] by simp
    have a1: "allocated_params s1 params"
      using "6.prems"(2) frame_allocated(2) [OF f1] by simp
    have b1: "bounded s1 w ?end" using "6.prems"(3) False frame_bounded [OF f1] by simp
    from "6.IH"(3) [OF False i1 a1 b1] obtain s' where
      "gtk_closure_expression_unwatch params w ?mid s1 = Inr s'" "kept s1 s'" by blast
    then show ?thesis using False f kept_trans [OF k1] by (simp add: and_then_def)
  qed
qed


text \<open>
  Claim C2, at the input where the code departs from it. A property expression whose
  child is a closure expression without parameters: the child is static, so
  \<^verbatim>\<open>gtk_property_expression_watch\<close> and \<^verbatim>\<open>gtk_property_expression_unwatch\<close> skip it,
  but \<^verbatim>\<open>gtk_property_expression_watch_size\<close> adds its 16 bytes. The size is 56, and
  the watch writes one sub-watch, at offset 0, of 40 bytes.
\<close>

theorem property_watch_size_counts_static_child:
  "gtk_expression_is_static (Closure 100 7 [])
   \<and> gtk_expression_watch_size (Property (Some (Closure 100 7 [])) width_pspec) = 56
   \<and> (\<exists>s.
        gtk_expression_watch (Property (Some (Closure 100 7 [])) width_pspec) None
          (User_notify 0) None example_state = Inr (Some 10, s)
        \<and> map_option w_sub (watches s 10) =
            Some [0 \<mapsto> Property_watch
                         \<lparr>pw_notify = Watch_cb 10,
                          pw_expr = (Some (Closure 100 7 []), width_pspec),
                          pw_this = None, pw_closure = None\<rparr>]
        \<and> map_option w_sub_size (watches s 10) = Some 56
        \<and> (\<exists>s'. gtk_expression_watch_unwatch 10 s = Inr s'))
   \<and> sizeof_subwatch
         (Property_watch \<lparr>pw_notify = Watch_cb 10,
                          pw_expr = (Some (Closure 100 7 []), width_pspec),
                          pw_this = None, pw_closure = None\<rparr>) = 40"
  by (simp add: watch_defs example_defs gtk_expression_watch_unwatch_def
        gtk_expression_watch_unref_def gtk_expression_watch_is_watching_def)

section \<open>What evaluation reads\<close>

lemma same_values_refl [simp]: "same_values s s"
  by (simp add: same_values_def)

lemma same_values_trans: "same_values s s1 \<Longrightarrow> same_values s1 s2 \<Longrightarrow> same_values s s2"
  by (simp add: same_values_def)

lemma frame_same_values: "frame s s' \<Longrightarrow> same_values s s'"
  by (simp add: frame_def same_values_def)

lemma same_values_object:
  assumes "same_values s s'"
  shows "(objects s' p = None) = (objects s p = None)"
    and "objects s p = Some ob \<Longrightarrow> \<exists>ob'. objects s' p = Some ob' \<and> g_type ob' = g_type ob
           \<and> g_properties ob' = g_properties ob"
proof -
  from assms have e: "map_option (\<lambda>ob. (g_type ob, g_properties ob)) (objects s' p)
             = map_option (\<lambda>ob. (g_type ob, g_properties ob)) (objects s p)"
    by (simp add: same_values_def)
  show "(objects s' p = None) = (objects s p = None)"
    using e by (cases "objects s p"; cases "objects s' p") auto
  show "objects s p = Some ob \<Longrightarrow> \<exists>ob'. objects s' p = Some ob' \<and> g_type ob' = g_type ob
           \<and> g_properties ob' = g_properties ob"
    using e by (cases "objects s' p") auto
qed

lemma same_values_prims:
  assumes "same_values s s'"
  shows "G_IS_OBJECT s' p = G_IS_OBJECT s p"
    and "this_is_valid s' this = this_is_valid s this"
    and "G_TYPE_CHECK_INSTANCE_TYPE s' p t = G_TYPE_CHECK_INSTANCE_TYPE s p t"
    and "g_object_get_property s' p nm = g_object_get_property s p nm"
    and "g_value_init_from_instance s' p = g_value_init_from_instance s p"
    and "gtk_object_expression_evaluate s' t a = gtk_object_expression_evaluate s t a"
    and "get_object_of_value s' ps v = get_object_of_value s ps v"
proof -
  show is_obj: "\<And>p. G_IS_OBJECT s' p = G_IS_OBJECT s p"
    using same_values_object(1) [OF assms] by (simp add: G_IS_OBJECT_def)
  show "this_is_valid s' this = this_is_valid s this"
    using is_obj by (simp add: this_is_valid_def split: option.splits)
  have ty: "type_is_a s' = type_is_a s" using assms by (simp add: same_values_def)
  have chk: "G_TYPE_CHECK_INSTANCE_TYPE s' q u = G_TYPE_CHECK_INSTANCE_TYPE s q u" for q u
    using same_values_object [OF assms, of q] ty
    by (cases "objects s q") (auto simp: G_TYPE_CHECK_INSTANCE_TYPE_def)
  show "G_TYPE_CHECK_INSTANCE_TYPE s' p t = G_TYPE_CHECK_INSTANCE_TYPE s p t"
    by (rule chk)
  show "g_object_get_property s' p nm = g_object_get_property s p nm"
    using same_values_object [OF assms, of p]
    by (cases "objects s p") (auto simp: g_object_get_property_def)
  show "g_value_init_from_instance s' p = g_value_init_from_instance s p"
    using same_values_object [OF assms, of p]
    by (cases "objects s p") (auto simp: g_value_init_from_instance_def)
  have "map_option oe_object (object_exprs s' a) = map_option oe_object (object_exprs s a)"
    using assms by (simp add: same_values_def)
  then show "gtk_object_expression_evaluate s' t a = gtk_object_expression_evaluate s t a"
    by (cases "object_exprs s a"; cases "object_exprs s' a")
       (auto simp: gtk_object_expression_evaluate_def)
  show "get_object_of_value s' ps v = get_object_of_value s ps v"
    using chk by (simp add: get_object_of_value_def split: option.splits gvalue.splits)
qed

lemma evaluate_same_values:
  "same_values s s' \<Longrightarrow> gtk_expression_evaluate s' e this = gtk_expression_evaluate s e this"
  "same_values s s' \<Longrightarrow> class_evaluate s' e this = class_evaluate s e this"
  "same_values s s' \<Longrightarrow>
     gtk_property_expression_get_object s' child ps this
       = gtk_property_expression_get_object s child ps this"
  "same_values s s' \<Longrightarrow>
     closure_evaluate_params s' params this = closure_evaluate_params s params this"
proof (induction s e this and s e this and s child ps this and s params this
      rule: gtk_expression_evaluate_class_evaluate_gtk_property_expression_get_object_closure_evaluate_params.induct)
  case (1 s e this)
  then show ?case
    using same_values_prims(2) [of s s' this] by (simp add: gtk_expression_evaluate.simps)
next
  case (2 s v this)
  then show ?case by simp
next
  case (3 s t a this)
  then show ?case using same_values_prims(6) [of s s'] by simp
next
  case (4 s child ps this)
  then show ?case
    using same_values_prims(4) [of s s'] by (simp split: prod.splits option.splits)
next
  case (5 s t c params this)
  then show ?case
    using same_values_prims(5) [of s s']
    by (simp add: same_values_def split: prod.splits bool.splits option.splits)
next
  case (6 s ps this)
  then show ?case by simp
next
  case (7 s e ps this)
  then show ?case
    using same_values_prims(7) [of s s'] by (simp add: Let_def split: prod.splits)
next
  case (8 s this)
  then show ?case by simp
next
  case (9 s p params this)
  then show ?case by (simp add: Let_def)
qed

section \<open>Creating and removing a watch\<close>

lemma weak_ref_same_values: "same_values s (g_object_weak_ref p n s)"
  by (auto simp: same_values_def g_object_weak_ref_def split: option.splits)

lemma weak_unref_same_values: "same_values s (g_object_weak_unref p n s)"
  by (auto simp: same_values_def g_object_weak_unref_def split: option.splits)

lemma weak_ref_same_values': "same_values s s1 \<Longrightarrow> same_values s (g_object_weak_ref p n s1)"
  using same_values_trans weak_ref_same_values by blast

lemma same_values_new_watch: "same_values s (s\<lparr>watches := X, heap_top := Y\<rparr>)"
  by (simp add: same_values_def)

lemma weak_ref_fields [simp]:
  "watches (g_object_weak_ref p n s) = watches s"
  "binds (g_object_weak_ref p n s) = binds s"
  "object_exprs (g_object_weak_ref p n s) = object_exprs s"
  "log (g_object_weak_ref p n s) = log s"
  "heap_top (g_object_weak_ref p n s) = heap_top s"
  "handlers (g_object_weak_ref p n s) = handlers s"
  "map_option g_binds (objects (g_object_weak_ref p n s) q) = map_option g_binds (objects s q)"
  by (auto simp: g_object_weak_ref_def split: option.splits)

lemma weak_unref_fields [simp]:
  "watches (g_object_weak_unref p n s) = watches s"
  "binds (g_object_weak_unref p n s) = binds s"
  "object_exprs (g_object_weak_unref p n s) = object_exprs s"
  "log (g_object_weak_unref p n s) = log s"
  "heap_top (g_object_weak_unref p n s) = heap_top s"
  "handlers (g_object_weak_unref p n s) = handlers s"
  "map_option g_binds (objects (g_object_weak_unref p n s) q) = map_option g_binds (objects s q)"
  by (auto simp: g_object_weak_unref_def split: option.splits)

lemma allocated_object_exprs:
  "object_exprs s' = object_exprs s \<Longrightarrow> allocated s' e = allocated s e"
  "object_exprs s' = object_exprs s \<Longrightarrow> allocated_params s' params = allocated_params s params"
  by (induction s e and s params rule: allocated_allocated_params.induct) auto

lemma gtk_expression_watch_ok:
  assumes valid: "this_is_valid s this" and alloc: "allocated s e"
  shows "\<exists>s' watch'.
           gtk_expression_watch e this n d s = Inr (Some (heap_top s), s')
           \<and> watches s' (heap_top s) = Some watch'
           \<and> header watch' =
               \<lparr>w_expression = Some e, w_this = this, w_user_destroy = d, w_notify = n,
                w_sub = Map.empty, w_sub_size = gtk_expression_watch_size e, w_ref_count = 1\<rparr>
           \<and> installed s' e (heap_top s) 0 \<and> allocated s' e
           \<and> same_values s s' \<and> binds s' = binds s \<and> log s' = log s
           \<and> heap_top s' = Suc (heap_top s)
           \<and> (\<forall>p. map_option g_binds (objects s' p) = map_option g_binds (objects s p))
           \<and> (\<forall>w. w \<noteq> heap_top s \<longrightarrow>
                  map_option header (watches s' w) = map_option header (watches s w))"
proof -
  let ?w = "heap_top s"
  let ?watch = "\<lparr>w_expression = Some e, w_this = this, w_user_destroy = d, w_notify = n,
                w_sub = Map.empty, w_sub_size = gtk_expression_watch_size e, w_ref_count = 1\<rparr>"
  let ?s1 = "s\<lparr>watches := (watches s)(?w \<mapsto> ?watch), heap_top := Suc ?w\<rparr>"
  let ?s2 = "case this of Some p \<Rightarrow> g_object_weak_ref p (Watch_this_cb ?w) ?s1 | None \<Rightarrow> ?s1"
  have w2: "watches ?s2 = (watches s)(?w \<mapsto> ?watch)" by (simp split: option.splits)
  have oe2: "object_exprs ?s2 = object_exprs s" by (simp split: option.splits)
  have sv2: "same_values s ?s2"
    by (cases this) (simp_all add: same_values_new_watch weak_ref_same_values')
  have a2: "allocated ?s2 e" using alloc allocated_object_exprs(1) [OF oe2] by simp
  have b2: "bounded ?s2 ?w (0 + gtk_expression_watch_size e)"
    using w2 by (simp add: bounded_def)
  from subwatch_init_ok(1) [OF a2 b2] obtain s' where
    init: "gtk_expression_subwatch_init e ?w 0 this (Watch_cb ?w) ?s2 = Inr s'"
    and t: "touched_only ?s2 s' ?w 0 (0 + gtk_expression_watch_size e)"
    and inst: "installed s' e ?w 0"
    by blast
  from t have f: "frame ?s2 s'" by (simp add: touched_only_def)
  have hd: "\<And>w. map_option header (watches s' w) = map_option header (watches ?s2 w)"
    using f by (simp add: frame_def)
  from hd [of ?w] w2 obtain watch' where
    w': "watches s' ?w = Some watch'" "header watch' = header ?watch"
    by (cases "watches s' ?w") auto
  have res: "gtk_expression_watch e this n d s = Inr (Some ?w, s')"
    using valid init by (simp add: gtk_expression_watch_def Let_def and_then_def del: One_nat_def)
  have "same_values s s'" using same_values_trans [OF sv2 frame_same_values [OF f]] .
  moreover have "allocated s' e" using a2 frame_allocated(1) [OF f] by simp
  moreover have "binds s' = binds s" using f by (simp add: frame_def split: option.splits)
  moreover have "log s' = log s" using f by (simp add: frame_def split: option.splits)
  moreover have "heap_top s' = Suc ?w" using f by (simp add: frame_def split: option.splits)
  moreover have "\<forall>p. map_option g_binds (objects s' p) = map_option g_binds (objects s p)"
    using f by (simp add: frame_def split: option.splits)
  moreover have "\<forall>w. w \<noteq> ?w \<longrightarrow>
                  map_option header (watches s' w) = map_option header (watches s w)"
    using hd w2 by simp
  ultimately show ?thesis
    using res w' inst by (simp add: header_def)
qed

lemma weak_unref_live [simp]:
  "(objects (g_object_weak_unref p n s) q = None) = (objects s q = None)"
  by (auto simp: g_object_weak_unref_def split: option.splits)

lemma weak_ref_live [simp]:
  "(objects (g_object_weak_ref p n s) q = None) = (objects s q = None)"
  by (auto simp: g_object_weak_ref_def split: option.splits)

lemma destroy_ok_cong:
  "binds s' = binds s \<Longrightarrow> (\<And>q. (objects s' q = None) = (objects s q = None)) \<Longrightarrow>
   destroy_ok s' d = destroy_ok s d"
  by (simp add: destroy_ok_def cong: option.case_cong destroy_notify.case_cong)

lemma call_destroy_ok:
  assumes "destroy_ok s (Some d)"
  shows "\<exists>s'. call_destroy d s = Inr s' \<and> watches s' = watches s
            \<and> object_exprs s' = object_exprs s \<and> log s' = log s @ destroy_log (Some d)"
proof (cases d)
  case (User_destroy x)
  then show ?thesis by (simp add: call_destroy_def destroy_log_def)
next
  case (Bind_free b)
  then show ?thesis
    using assms
    by (auto simp: call_destroy_def destroy_log_def destroy_ok_def gtk_expression_bind_free_def
          Let_def split: option.splits)
qed

lemma unwatch_ok:
  assumes w: "watches s w = Some watch" and e: "w_expression watch = Some e"
    and inst: "installed s e w 0" and alloc: "allocated s e"
    and size: "gtk_expression_watch_size e \<le> w_sub_size watch"
    and d: "destroy_ok s (w_user_destroy watch)"
  shows "\<exists>s'. gtk_expression_watch_unwatch w s = Inr s'
           \<and> (if 1 < w_ref_count watch
               then \<exists>watch'. watches s' w = Some watch'
                      \<and> header watch' = header (watch\<lparr>w_expression := None,
                                                     w_ref_count := w_ref_count watch - 1\<rparr>)
               else watches s' w = None)
           \<and> log s' = log s @ destroy_log (w_user_destroy watch)
           \<and> (\<forall>w'. w' \<noteq> w \<longrightarrow>
                  map_option header (watches s' w') = map_option header (watches s w'))
           \<and> (\<forall>a. (object_exprs s' a = None) = (object_exprs s a = None))"
proof -
  have b: "bounded s w (0 + gtk_expression_watch_size e)"
    using w size by (simp add: bounded_def)
  from subwatch_finish_ok(1) [OF inst alloc b] obtain s1 where
    fin: "gtk_expression_subwatch_finish e w 0 s = Inr s1" and k: "kept s s1" by blast
  from k have f: "frame s s1" by (simp add: kept_def)
  let ?s2 = "case w_this watch of
               Some p \<Rightarrow> g_object_weak_unref p (Watch_this_cb w) s1 | None \<Rightarrow> s1"
  have w2: "watches ?s2 = watches s1" by (simp split: option.splits)
  have oe2: "object_exprs ?s2 = object_exprs s1" by (simp split: option.splits)
  have log2: "log ?s2 = log s" using f by (simp add: frame_def split: option.splits)
  have b2: "binds ?s2 = binds s" using f by (simp add: frame_def split: option.splits)
  have live2: "\<And>q. (objects ?s2 q = None) = (objects s q = None)"
    using f by (simp add: frame_def split: option.splits)
  have d2: "destroy_ok ?s2 (w_user_destroy watch)"
    using d destroy_ok_cong [OF b2 live2] by simp
  have "\<exists>s3. (case w_user_destroy watch of Some d \<Rightarrow> call_destroy d ?s2 | None \<Rightarrow> Inr ?s2)
               = Inr s3
          \<and> watches s3 = watches s1 \<and> object_exprs s3 = object_exprs s1
          \<and> log s3 = log s @ destroy_log (w_user_destroy watch)"
  proof (cases "w_user_destroy watch")
    case None
    then show ?thesis using w2 oe2 log2 by (simp add: destroy_log_def)
  next
    case (Some dn)
    with d2 have "destroy_ok ?s2 (Some dn)" by simp
    from call_destroy_ok [OF this] show ?thesis using Some w2 oe2 log2 by auto
  qed
  then obtain s3 where
    cd: "(case w_user_destroy watch of Some d \<Rightarrow> call_destroy d ?s2 | None \<Rightarrow> Inr ?s2) = Inr s3"
    and w3: "watches s3 = watches s1" and oe3: "object_exprs s3 = object_exprs s1"
    and log3: "log s3 = log s @ destroy_log (w_user_destroy watch)"
    by blast
  have hd: "\<And>w'. map_option header (watches s1 w') = map_option header (watches s w')"
    using f by (simp add: frame_def)
  from hd [of w] w obtain watch3 where
    watch3: "watches s3 w = Some watch3" "header watch3 = header watch"
    using w3 by (cases "watches s1 w") auto
  have rc: "w_ref_count watch3 = w_ref_count watch"
    using watch3(2) by (auto simp: header_def dest: arg_cong [where f = w_ref_count])
  let ?s4 = "s3\<lparr>watches := (watches s3)(w \<mapsto> watch3\<lparr>w_expression := None\<rparr>)\<rparr>"
  let ?s5 = "if 1 < w_ref_count watch
             then ?s4\<lparr>watches := (watches ?s4)(w \<mapsto>
                        watch3\<lparr>w_expression := None, w_ref_count := w_ref_count watch - 1\<rparr>)\<rparr>
             else ?s4\<lparr>watches := (watches ?s4)(w := None)\<rparr>"
  have unref: "gtk_expression_watch_unref w ?s4 = Inr ?s5"
    using rc by (simp add: gtk_expression_watch_unref_def gtk_expression_watch_is_watching_def)
  have res: "gtk_expression_watch_unwatch w s = Inr ?s5"
    using w e fin cd watch3(1) unref
    by (simp add: gtk_expression_watch_unwatch_def and_then_def)
  have hd5: "header (watch3\<lparr>w_expression := None, w_ref_count := w_ref_count watch - 1\<rparr>)
             = header (watch\<lparr>w_expression := None, w_ref_count := w_ref_count watch - 1\<rparr>)"
    using watch3(2) by (simp add: header_def) (metis expression_watch.surjective
        expression_watch.update_convs(1,5,7))
  have oe: "\<forall>a. (object_exprs ?s5 a = None) = (object_exprs s a = None)"
    using oe3 frame_allocated_obj [OF f] by simp
  show ?thesis
    using res hd5 log3 hd w3 oe by (auto simp del: One_nat_def)
qed


section \<open>The watch as a state machine\<close>

lemmas unwatch_defs =
  gtk_expression_watch_unwatch_def gtk_expression_watch_unref_def
  gtk_expression_watch_ref_def gtk_expression_watch_is_watching_def
  gtk_expression_watch_evaluate_def call_destroy_def gtk_expression_watch_cb_def

text \<open>
  Claim C7. A watch that is not watching is inert: \<^verbatim>\<open>gtk_expression_watch_unwatch\<close>
  returns at its first check and leaves the state as it is,
  \<^verbatim>\<open>gtk_expression_watch_evaluate\<close> fails with an empty value and no effect, and
  \<^verbatim>\<open>gtk_expression_watch_cb\<close> does not call the notify. While the watch is watching,
  evaluating through it is evaluating its expression with its \<open>this\<close>, which for a
  watch just created by \<^verbatim>\<open>gtk_expression_watch\<close> is the \<open>this\<close> given there. A
  watch that the caller holds a reference on is in that inert state after its first
  \<^verbatim>\<open>gtk_expression_watch_unwatch\<close>, so that the second one changes nothing.
\<close>

theorem unwatched_watch_is_inert:
  "(watches s w = Some watch \<and> w_expression watch = None \<longrightarrow>
      gtk_expression_watch_unwatch w s = Inr s
      \<and> gtk_expression_watch_evaluate s w = Inr \<lparr>ret = False, val = None, trace = []\<rparr>
      \<and> gtk_expression_watch_cb call w s = Inr s)
   \<and> (watches s w = Some watch \<and> w_expression watch = Some e \<longrightarrow>
      gtk_expression_watch_evaluate s w = Inr (gtk_expression_evaluate s e (w_this watch)))
   \<and> (this_is_valid s this \<and> allocated s e \<longrightarrow>
      (\<exists>s'. gtk_expression_watch e this n d s = Inr (Some (heap_top s), s')
         \<and> gtk_expression_watch_evaluate s' (heap_top s)
             = Inr (gtk_expression_evaluate s' e this)
         \<and> gtk_expression_evaluate s' e this = gtk_expression_evaluate s e this))
   \<and> (watches s w = Some watch \<and> w_expression watch = Some e \<and> 1 < w_ref_count watch
       \<and> installed s e w 0 \<and> allocated s e \<and> gtk_expression_watch_size e \<le> w_sub_size watch
       \<and> destroy_ok s (w_user_destroy watch) \<longrightarrow>
      (\<exists>s' watch'. gtk_expression_watch_unwatch w s = Inr s'
         \<and> watches s' w = Some watch' \<and> w_expression watch' = None
         \<and> gtk_expression_watch_unwatch w s' = Inr s'
         \<and> gtk_expression_watch_evaluate s' w = Inr \<lparr>ret = False, val = None, trace = []\<rparr>))"
proof (intro conjI impI)
  assume a: "watches s w = Some watch \<and> w_expression watch = None"
  then show "gtk_expression_watch_unwatch w s = Inr s"
    by (simp add: gtk_expression_watch_unwatch_def)
  from a show "gtk_expression_watch_evaluate s w = Inr \<lparr>ret = False, val = None, trace = []\<rparr>"
    by (simp add: gtk_expression_watch_evaluate_def)
  from a show "gtk_expression_watch_cb call w s = Inr s"
    by (simp add: gtk_expression_watch_cb_def gtk_expression_watch_is_watching_def)
next
  assume "watches s w = Some watch \<and> w_expression watch = Some e"
  then show "gtk_expression_watch_evaluate s w
               = Inr (gtk_expression_evaluate s e (w_this watch))"
    by (simp add: gtk_expression_watch_evaluate_def)
next
  assume a: "this_is_valid s this \<and> allocated s e"
  then obtain s' watch' where
    res: "gtk_expression_watch e this n d s = Inr (Some (heap_top s), s')"
    and w': "watches s' (heap_top s) = Some watch'"
    and hd: "header watch' =
               \<lparr>w_expression = Some e, w_this = this, w_user_destroy = d, w_notify = n,
                w_sub = Map.empty, w_sub_size = gtk_expression_watch_size e, w_ref_count = 1\<rparr>"
    and sv: "same_values s s'"
    using gtk_expression_watch_ok [of s this e n d] by blast
  from hd have "w_expression watch' = Some e" "w_this watch' = this"
    by (auto simp: header_def dest: arg_cong [where f = w_expression]
                                    arg_cong [where f = w_this])
  then have "gtk_expression_watch_evaluate s' (heap_top s)
               = Inr (gtk_expression_evaluate s' e this)"
    using w' by (simp add: gtk_expression_watch_evaluate_def)
  then show "\<exists>s'. gtk_expression_watch e this n d s = Inr (Some (heap_top s), s')
         \<and> gtk_expression_watch_evaluate s' (heap_top s)
             = Inr (gtk_expression_evaluate s' e this)
         \<and> gtk_expression_evaluate s' e this = gtk_expression_evaluate s e this"
    using res evaluate_same_values(1) [OF sv] by blast
next
  assume a: "watches s w = Some watch \<and> w_expression watch = Some e \<and> 1 < w_ref_count watch
       \<and> installed s e w 0 \<and> allocated s e \<and> gtk_expression_watch_size e \<le> w_sub_size watch
       \<and> destroy_ok s (w_user_destroy watch)"
  then obtain s' watch' where
    res: "gtk_expression_watch_unwatch w s = Inr s'"
    and w': "watches s' w = Some watch'"
    and hd: "header watch' = header (watch\<lparr>w_expression := None,
                                           w_ref_count := w_ref_count watch - 1\<rparr>)"
    using unwatch_ok [of s w watch e] by auto
  from hd have e': "w_expression watch' = None"
    by (auto simp: header_def dest: arg_cong [where f = w_expression])
  show "\<exists>s' watch'. gtk_expression_watch_unwatch w s = Inr s'
         \<and> watches s' w = Some watch' \<and> w_expression watch' = None
         \<and> gtk_expression_watch_unwatch w s' = Inr s'
         \<and> gtk_expression_watch_evaluate s' w = Inr \<lparr>ret = False, val = None, trace = []\<rparr>"
    using res w' e'
    by (auto simp: gtk_expression_watch_unwatch_def gtk_expression_watch_evaluate_def)
qed

theorem unwatched_watch_is_inert_witness:
  "\<exists>s1 s2 s3.
     gtk_expression_watch (Property None width_pspec) (Some 1) (User_notify 5)
       (Some (User_destroy 6)) example_state = Inr (Some 10, s1)
     \<and> gtk_expression_watch_evaluate s1 10
         = Inr (gtk_expression_evaluate example_state (Property None width_pspec) (Some 1))
     \<and> val (gtk_expression_evaluate example_state (Property None width_pspec) (Some 1))
         = Some (GV_Int 42)
     \<and> gtk_expression_watch_ref 10 s1 = Inr s2
     \<and> gtk_expression_watch_unwatch 10 s2 = Inr s3
     \<and> log s3 = [Destroyed 6]
     \<and> gtk_expression_watch_unwatch 10 s3 = Inr s3
     \<and> gtk_expression_watch_cb (invoke 3) 10 s3 = Inr s3
     \<and> gtk_expression_watch_evaluate s3 10 = Inr \<lparr>ret = False, val = None, trace = []\<rparr>"
  using unwatched_watch_is_inert
          [where s = example_state and this = "Some 1" and e = "Property None width_pspec"
             and n = "User_notify 5" and d = "Some (User_destroy 6)"]
  by (simp add: watch_defs unwatch_defs example_defs)

section \<open>Destruction of the watched objects\<close>



lemma notify_object_watches_log:
  assumes call: "\<And>cb s1. \<not> ret (gtk_object_expression_evaluate s1 t a) \<Longrightarrow> watches s1 = watches s
                   \<Longrightarrow> call cb s1 = Inr (s1\<lparr>log := log s1 @ [ev cb]\<rparr>)"
  shows "map (object_watch_notify s) l = map Some cbs \<Longrightarrow>
         \<not> ret (gtk_object_expression_evaluate s1 t a) \<Longrightarrow> watches s1 = watches s \<Longrightarrow>
         notify_object_watches call l s1 = Inr (s1\<lparr>log := log s1 @ map ev cbs\<rparr>)"
proof (induction l arbitrary: cbs s1)
  case Nil
  then show ?case by simp
next
  case (Cons x l)
  obtain w off where x: "x = (w, off)" by (cases x)
  from Cons.prems(1) obtain cb cbs' where cbs: "cbs = cb # cbs'"
    and cb: "object_watch_notify s x = Some cb"
    and rest: "map (object_watch_notify s) l = map Some cbs'"
    by (cases cbs) auto
  from cb x have slot: "subwatch_at s w off = Some (Object_watch cb)"
    by (auto simp: object_watch_notify_def split: option.splits subwatch.splits)
  then have slot1: "subwatch_at s1 w off = Some (Object_watch cb)"
    using Cons.prems(3) by (simp add: subwatch_at_def)
  let ?s2 = "s1\<lparr>log := log s1 @ [ev cb]\<rparr>"
  have c: "call cb s1 = Inr ?s2" using call Cons.prems(2,3) by simp
  have "\<not> ret (gtk_object_expression_evaluate ?s2 t a)"
    using Cons.prems(2) by (simp add: gtk_object_expression_evaluate_def)
  moreover have "watches ?s2 = watches s" using Cons.prems(3) by simp
  ultimately have "notify_object_watches call l ?s2 = Inr (?s2\<lparr>log := log ?s2 @ map ev cbs'\<rparr>)"
    using Cons.IH [OF rest] by blast
  then show ?case using x slot1 c cbs by (simp add: and_then_def)
qed

text \<open>
  Claim C4. \<^verbatim>\<open>gtk_object_expression_evaluate\<close> succeeds exactly when the stored
  pointer is set, and then returns the object. \<^verbatim>\<open>gtk_object_expression_new\<close> on a
  live object stores it, so that evaluation returns it, and registers
  \<^verbatim>\<open>gtk_object_expression_weak_ref_cb\<close> on it, which is what the destruction of the
  object calls. That callback clears the pointer and then calls the notify of each
  sub-watch in \<^verbatim>\<open>self->watches\<close> once, in the order of the list: with callbacks that
  are only known to return, leaving the entry \<open>ev cb\<close> in the log, when the expression
  already fails to evaluate, the log grows by exactly these entries, and evaluation
  fails from then on.
\<close>

theorem object_expression_follows_object:
  "(ret (gtk_object_expression_evaluate s t a)
      = (\<exists>self p. object_exprs s a = Some self \<and> oe_object self = Some p))
   \<and> (object_exprs s a = Some self \<and> oe_object self = Some p \<longrightarrow>
        val (gtk_object_expression_evaluate s t a) = Some (GV_Object t (Some p)))
   \<and> (objects s p = Some ob \<longrightarrow>
        fst (gtk_object_expression_new p s) = Some (Object (g_type ob) (heap_top s))
        \<and> val (gtk_object_expression_evaluate (snd (gtk_object_expression_new p s))
                 (g_type ob) (heap_top s)) = Some (GV_Object (g_type ob) (Some p))
        \<and> (\<exists>ob'. objects (snd (gtk_object_expression_new p s)) p = Some ob'
              \<and> g_weak_refs ob' = g_weak_refs ob @ [Object_weak_ref_cb (heap_top s)]))
   \<and> (object_exprs s a = Some self
       \<and> map (object_watch_notify s) (oe_watches self) = map Some cbs
       \<and> (\<forall>cb s1. \<not> ret (gtk_object_expression_evaluate s1 t a) \<and> watches s1 = watches s
              \<longrightarrow> call cb s1 = Inr (s1\<lparr>log := log s1 @ [ev cb]\<rparr>)) \<longrightarrow>
        (\<exists>s'. gtk_object_expression_weak_ref_cb call a s = Inr s'
           \<and> log s' = log s @ map ev cbs
           \<and> object_exprs s' a = Some (self\<lparr>oe_object := None\<rparr>)
           \<and> \<not> ret (gtk_object_expression_evaluate s' t a)))"
proof (intro conjI impI)
  show "ret (gtk_object_expression_evaluate s t a)
      = (\<exists>self p. object_exprs s a = Some self \<and> oe_object self = Some p)"
    by (auto simp: gtk_object_expression_evaluate_def split: option.splits)
next
  assume "object_exprs s a = Some self \<and> oe_object self = Some p"
  then show "val (gtk_object_expression_evaluate s t a) = Some (GV_Object t (Some p))"
    by (simp add: gtk_object_expression_evaluate_def)
next
  assume ob: "objects s p = Some ob"
  then show "fst (gtk_object_expression_new p s) = Some (Object (g_type ob) (heap_top s))"
    by (simp add: gtk_object_expression_new_def Let_def)
  from ob show "val (gtk_object_expression_evaluate (snd (gtk_object_expression_new p s))
                 (g_type ob) (heap_top s)) = Some (GV_Object (g_type ob) (Some p))"
    by (simp add: gtk_object_expression_new_def Let_def gtk_object_expression_evaluate_def)
  from ob show "\<exists>ob'. objects (snd (gtk_object_expression_new p s)) p = Some ob'
              \<and> g_weak_refs ob' = g_weak_refs ob @ [Object_weak_ref_cb (heap_top s)]"
    by (simp add: gtk_object_expression_new_def Let_def g_object_weak_ref_def)
next
  assume a: "object_exprs s a = Some self
       \<and> map (object_watch_notify s) (oe_watches self) = map Some cbs
       \<and> (\<forall>cb s1. \<not> ret (gtk_object_expression_evaluate s1 t a) \<and> watches s1 = watches s
              \<longrightarrow> call cb s1 = Inr (s1\<lparr>log := log s1 @ [ev cb]\<rparr>))"
  let ?s1 = "s\<lparr>object_exprs := (object_exprs s)(a \<mapsto> self\<lparr>oe_object := None\<rparr>)\<rparr>"
  have cleared: "\<not> ret (gtk_object_expression_evaluate ?s1 t a)"
    by (simp add: gtk_object_expression_evaluate_def)
  have "notify_object_watches call (oe_watches self) ?s1
          = Inr (?s1\<lparr>log := log ?s1 @ map ev cbs\<rparr>)"
    by (rule notify_object_watches_log [where s = s and t = t and a = a])
       (use a cleared in auto)
  then show "\<exists>s'. gtk_object_expression_weak_ref_cb call a s = Inr s'
           \<and> log s' = log s @ map ev cbs
           \<and> object_exprs s' a = Some (self\<lparr>oe_object := None\<rparr>)
           \<and> \<not> ret (gtk_object_expression_evaluate s' t a)"
    using a by (simp add: gtk_object_expression_weak_ref_cb_def gtk_object_expression_evaluate_def)
qed

lemmas callback_defs =
  gtk_expression_watch_this_cb_def gtk_object_expression_weak_ref_cb_def
  gtk_property_expression_watch_notify_cb_def gtk_property_expression_watch_expr_notify_cb_def
  gtk_closure_expression_watch_notify_cb_def call_weak_notify_def g_object_destroy_def
  gtk_object_expression_new_def destroy_ok_def destroy_log_def bounded_def property_slot_def
  object_watch_notify_def


theorem object_expression_follows_object_witness:
  "ret (gtk_object_expression_evaluate watched_object_state 100 10)
   \<and> val (gtk_object_expression_evaluate watched_object_state 100 10)
       = Some (GV_Object 100 (Some 1))
   \<and> (\<exists>s'. gtk_object_expression_weak_ref_cb
               (\<lambda>cb s. Inr (s\<lparr>log := log s @ [Called cb]\<rparr>)) 10 watched_object_state = Inr s'
         \<and> log s' = [Called (Watch_cb 12), Called (Watch_cb 11)]
         \<and> \<not> ret (gtk_object_expression_evaluate s' 100 10))
   \<and> (\<exists>s'. g_object_destroy (invoke (Suc (Suc 0))) 1 watched_object_state = Inr s'
         \<and> log s' = [Notified 6, Notified 5] \<and> objects s' 1 = None
         \<and> \<not> ret (gtk_expression_evaluate s' (Object 100 10) None))"
  using object_expression_follows_object
          [where s = watched_object_state and a = 10 and t = 100
             and self = "\<lparr>oe_object = Some 1, oe_watches = [(12, 0), (11, 0)]\<rparr>"
             and cbs = "[Watch_cb 12, Watch_cb 11]" and ev = Called and p = 1
             and call = "\<lambda>cb s. Inr (s\<lparr>log := log s @ [Called cb]\<rparr>)"]
  by (simp add: watched_object_state_def object_expr_state_def watch_defs unwatch_defs
        callback_defs example_defs)

section \<open>Binds\<close>

lemma stored_fields [simp]:
  "watches (stored object ob nm ps v s) = watches s"
  "binds (stored object ob nm ps v s) = binds s"
  "handlers (stored object ob nm ps v s) = handlers s"
  "object_exprs (stored object ob nm ps v s) = object_exprs s"
  "log (stored object ob nm ps v s) = log s @ [Property_notify object nm]"
  "notify_handlers (stored object ob nm ps v s) p nm' = notify_handlers s p nm'"
  by (simp_all add: stored_def notify_handlers_def)

lemma stored_property:
  "g_object_get_property (stored object ob nm ps v s) object nm = Some v"
  by (simp add: stored_def g_object_get_property_def)

lemma emit_without_handlers:
  "notify_handlers s object nm = [] \<Longrightarrow> g_signal_emit_notify call object nm s = Inr s"
  by (simp add: g_signal_emit_notify_def)

lemma accepted_value_same_values:
  assumes "same_values s s'"
  shows "accepted_value s' ps r = accepted_value s ps r"
proof -
  have ty: "type_is_a s' = type_is_a s" using assms by (simp add: same_values_def)
  have tr: "g_value_transform s' v t = g_value_transform s v t" for v t
    using ty same_values_prims(3) [OF assms]
    by (simp add: g_value_transform_def split: gvalue.splits option.splits)
  have va: "g_param_value_validate s' ps v = g_param_value_validate s ps v" for v
    using same_values_prims(3) [OF assms]
    by (simp add: g_param_value_validate_def split: gvalue.splits option.splits)
  show ?thesis by (simp add: accepted_value_def tr va split: option.splits)
qed

lemma bind_notify_effect:
  assumes b: "binds s b = Some bind" "b_target bind = Some target" "b_watch bind = Some w"
    and w: "watches s w = Some watch" "w_expression watch = Some e"
    and t: "objects s target = Some ob"
           "g_properties ob (pspec_name (b_pspec bind)) = Some (ps, old)"
           "pspec_writable ps" "\<not> pspec_construct_only ps"
  shows "gtk_expression_bind_notify call b s =
           (case accepted_value s ps (gtk_expression_evaluate s e (w_this watch)) of
              None \<Rightarrow> Inr s
            | Some v \<Rightarrow>
                g_signal_emit_notify call target (pspec_name (b_pspec bind))
                  (stored target ob (pspec_name (b_pspec bind)) ps v s))"
proof -
  let ?r = "gtk_expression_evaluate s e (w_this watch)"
  have ev: "gtk_expression_watch_evaluate s w = Inr ?r"
    using w by (simp add: gtk_expression_watch_evaluate_def)
  show ?thesis
    using b t ev
    by (simp add: gtk_expression_bind_notify_def and_then_def g_object_set_property_def
          accepted_value_def split: option.splits)
qed

text \<open>
  Claim C5. \<^verbatim>\<open>gtk_expression_bind_notify\<close> is what each call of the notify of a
  bind's watch runs. On a live bind it evaluates the watched expression with the
  watch's \<open>this\<close>. When the evaluation fails it returns with the state exactly as it
  was, and so it does when the value is empty or GObject refuses it for the property.
  Otherwise the value, transformed into the property's type, is stored in the target's
  property and \<^verbatim>\<open>notify\<close> is emitted on the target from that state; when no handler is
  connected to it, that state is the result.
  \<^verbatim>\<open>gtk_expression_bind\<close> on a target with a writable property of that name, a valid
  \<open>this\<close> and an allocated expression sets up the bind and its watch, whose expression
  and \<open>this\<close> are the ones given and whose notify is \<^verbatim>\<open>gtk_expression_bind_notify\<close> on
  the new bind, without changing a property or the log, and then runs that notify once
  and returns the watch: a failed evaluation leaves the set-up state, a successful one
  writes the target's property as above.
\<close>

theorem bind_writes_only_on_success:
  "(binds s b = Some bind \<and> b_target bind = Some target \<and> b_watch bind = Some w
    \<and> watches s w = Some watch \<and> w_expression watch = Some e
    \<and> objects s target = Some ob
    \<and> g_properties ob (pspec_name (b_pspec bind)) = Some (ps, old)
    \<and> pspec_writable ps \<and> \<not> pspec_construct_only ps \<longrightarrow>
      invoke (Suc n) (Bind_notify b) s = gtk_expression_bind_notify (invoke n) b s
      \<and> (\<not> ret (gtk_expression_evaluate s e (w_this watch)) \<longrightarrow>
           gtk_expression_bind_notify call b s = Inr s)
      \<and> (case accepted_value s ps (gtk_expression_evaluate s e (w_this watch)) of
           None \<Rightarrow> gtk_expression_bind_notify call b s = Inr s
         | Some v \<Rightarrow>
             gtk_expression_bind_notify call b s
               = g_signal_emit_notify call target (pspec_name (b_pspec bind))
                   (stored target ob (pspec_name (b_pspec bind)) ps v s)
             \<and> g_object_get_property (stored target ob (pspec_name (b_pspec bind)) ps v s)
                 target (pspec_name (b_pspec bind)) = Some v
             \<and> (notify_handlers s target (pspec_name (b_pspec bind)) = [] \<longrightarrow>
                  gtk_expression_bind_notify call b s
                    = Inr (stored target ob (pspec_name (b_pspec bind)) ps v s))))
   \<and> (objects s target = Some ob \<and> g_properties ob property = Some (ps, old)
       \<and> pspec_name ps = property
       \<and> pspec_writable ps \<and> \<not> pspec_construct_only ps
       \<and> this_is_valid s this \<and> allocated s self \<longrightarrow>
      (\<exists>s4 watch ob4.
         watches s4 (Suc (heap_top s)) = Some watch
         \<and> w_notify watch = Bind_notify (heap_top s)
         \<and> w_expression watch = Some self \<and> w_this watch = this
         \<and> binds s4 (heap_top s)
             = Some \<lparr>b_watch = Some (Suc (heap_top s)), b_target = Some target, b_pspec = ps\<rparr>
         \<and> objects s4 target = Some ob4 \<and> g_properties ob4 = g_properties ob
         \<and> log s4 = log s
         \<and> (\<forall>p nm. g_object_get_property s4 p nm = g_object_get_property s p nm)
         \<and> gtk_expression_evaluate s4 self this = gtk_expression_evaluate s self this
         \<and> gtk_expression_bind call self target property this s
             = and_then (gtk_expression_bind_notify call (heap_top s) s4)
                 (\<lambda>s'. Inr (Some (Suc (heap_top s)), s'))
         \<and> (\<not> ret (gtk_expression_evaluate s self this) \<longrightarrow>
              gtk_expression_bind call self target property this s
                = Inr (Some (Suc (heap_top s)), s4))
         \<and> (case accepted_value s ps (gtk_expression_evaluate s self this) of
              None \<Rightarrow>
                gtk_expression_bind call self target property this s
                  = Inr (Some (Suc (heap_top s)), s4)
            | Some v \<Rightarrow>
                gtk_expression_bind call self target property this s
                  = and_then
                      (g_signal_emit_notify call target property
                         (stored target ob4 property ps v s4))
                      (\<lambda>s'. Inr (Some (Suc (heap_top s)), s'))
                \<and> g_object_get_property (stored target ob4 property ps v s4) target property
                    = Some v
                \<and> (notify_handlers s4 target property = [] \<longrightarrow>
                     gtk_expression_bind call self target property this s
                       = Inr (Some (Suc (heap_top s)), stored target ob4 property ps v s4)))))"
proof (intro conjI impI)
  assume a: "binds s b = Some bind \<and> b_target bind = Some target \<and> b_watch bind = Some w
    \<and> watches s w = Some watch \<and> w_expression watch = Some e
    \<and> objects s target = Some ob
    \<and> g_properties ob (pspec_name (b_pspec bind)) = Some (ps, old)
    \<and> pspec_writable ps \<and> \<not> pspec_construct_only ps"
  let ?nm = "pspec_name (b_pspec bind)"
  let ?r = "gtk_expression_evaluate s e (w_this watch)"
  show "invoke (Suc n) (Bind_notify b) s = gtk_expression_bind_notify (invoke n) b s" by simp
  have eff: "gtk_expression_bind_notify call b s =
           (case accepted_value s ps ?r of
              None \<Rightarrow> Inr s
            | Some v \<Rightarrow> g_signal_emit_notify call target ?nm (stored target ob ?nm ps v s))"
    using a bind_notify_effect [of s b bind target w watch e ob ps old call] by blast
  show "gtk_expression_bind_notify call b s = Inr s" if "\<not> ret ?r"
    using eff that by (simp add: accepted_value_def)
  show "case accepted_value s ps ?r of
           None \<Rightarrow> gtk_expression_bind_notify call b s = Inr s
         | Some v \<Rightarrow>
             gtk_expression_bind_notify call b s
               = g_signal_emit_notify call target ?nm (stored target ob ?nm ps v s)
             \<and> g_object_get_property (stored target ob ?nm ps v s) target ?nm = Some v
             \<and> (notify_handlers s target ?nm = [] \<longrightarrow>
                  gtk_expression_bind_notify call b s = Inr (stored target ob ?nm ps v s))"
  proof (cases "accepted_value s ps ?r")
    case None
    then show ?thesis using eff by simp
  next
    case (Some v)
    then show ?thesis
      using eff by (simp add: stored_property emit_without_handlers)
  qed
next
  assume a: "objects s target = Some ob \<and> g_properties ob property = Some (ps, old)
       \<and> pspec_name ps = property
       \<and> pspec_writable ps \<and> \<not> pspec_construct_only ps
       \<and> this_is_valid s this \<and> allocated s self"
  let ?b = "heap_top s"
  let ?w = "Suc ?b"
  let ?r = "gtk_expression_evaluate s self this"
  let ?bind0 = "\<lparr>b_watch = None, b_target = Some target, b_pspec = ps\<rparr>"
  let ?s1 = "s\<lparr>binds := (binds s)(?b \<mapsto> ?bind0), heap_top := Suc ?b,
               objects := (objects s)(target \<mapsto> ob\<lparr>g_binds := []\<rparr>)\<rparr>"
  let ?s2 = "if g_binds ob = [] then g_object_weak_ref target Invalidate_binds_cb ?s1 else ?s1"
  have sv1: "same_values s ?s1" using a by (auto simp: same_values_def)
  have sv2: "same_values s ?s2" using sv1 weak_ref_same_values' by simp
  have valid2: "this_is_valid ?s2 this" using a same_values_prims(2) [OF sv2] by simp
  have "object_exprs ?s2 = object_exprs s" by simp
  then have alloc2: "allocated ?s2 self" using a allocated_object_exprs(1) by blast
  have top2: "heap_top ?s2 = ?w" by simp
  have binds2: "binds ?s2 = (binds s)(?b \<mapsto> ?bind0)" by simp
  have log2: "log ?s2 = log s" by simp
  from gtk_expression_watch_ok [OF valid2 alloc2, of "Bind_notify ?b" "Some (Bind_free ?b)"]
  obtain s3 watch where
    res: "gtk_expression_watch self this (Bind_notify ?b) (Some (Bind_free ?b)) ?s2
            = Inr (Some ?w, s3)"
    and w3: "watches s3 ?w = Some watch"
    and hd: "header watch =
               \<lparr>w_expression = Some self, w_this = this, w_user_destroy = Some (Bind_free ?b),
                w_notify = Bind_notify ?b, w_sub = Map.empty,
                w_sub_size = gtk_expression_watch_size self, w_ref_count = 1\<rparr>"
    and sv3: "same_values ?s2 s3" and binds3: "binds s3 = binds ?s2" and log3: "log s3 = log ?s2"
    unfolding top2 by blast
  from hd have flds: "w_expression watch = Some self" "w_this watch = this"
      "w_notify watch = Bind_notify ?b"
    by (auto simp: header_def dest: arg_cong [where f = w_expression]
          arg_cong [where f = w_this] arg_cong [where f = w_notify])
  have sv03: "same_values s s3" using same_values_trans [OF sv2 sv3] .
  from same_values_object(2) [OF sv03] a obtain ob3 where
    ob3: "objects s3 target = Some ob3" "g_type ob3 = g_type ob"
         "g_properties ob3 = g_properties ob"
    by blast
  have b3: "binds s3 ?b = Some ?bind0" using binds3 binds2 by simp
  let ?bind = "\<lparr>b_watch = Some ?w, b_target = Some target, b_pspec = ps\<rparr>"
  let ?ob4 = "ob3\<lparr>g_binds := ?b # g_binds ob\<rparr>"
  let ?s4 = "s3\<lparr>binds := (binds s3)(?b \<mapsto> ?bind), objects := (objects s3)(target \<mapsto> ?ob4)\<rparr>"
  have sv34: "same_values s3 ?s4" using ob3 by (auto simp: same_values_def)
  have sv04: "same_values s ?s4" using same_values_trans [OF sv03 sv34] .
  have ev4: "gtk_expression_evaluate ?s4 self this = ?r"
    using evaluate_same_values(1) [OF sv04] .
  have get4: "\<And>p nm. g_object_get_property ?s4 p nm = g_object_get_property s p nm"
    using same_values_prims(4) [OF sv04] .
  have acc4: "accepted_value ?s4 ps ?r = accepted_value s ps ?r"
    using accepted_value_same_values [OF sv04] .
  have nm: "pspec_name ps = property" using a by simp
  have w4: "watches ?s4 ?w = Some watch" using w3 by simp
  have b4: "binds ?s4 ?b = Some ?bind" by simp
  have o4: "objects ?s4 target = Some ?ob4" by simp
  have p4: "g_properties ?ob4 = g_properties ob" using ob3 by simp
  have log4: "log ?s4 = log s" using log3 log2 by simp
  have "gtk_expression_bind_notify call ?b ?s4 =
           (case accepted_value ?s4 ps (gtk_expression_evaluate ?s4 self (w_this watch)) of
              None \<Rightarrow> Inr ?s4
            | Some v \<Rightarrow>
                g_signal_emit_notify call target (pspec_name (b_pspec ?bind))
                  (stored target ?ob4 (pspec_name (b_pspec ?bind)) ps v ?s4))"
    by (rule bind_notify_effect [where w = ?w and e = self and old = old])
       (use w3 flds ob3 a in simp_all)
  then have eff: "gtk_expression_bind_notify call ?b ?s4 =
           (case accepted_value s ps ?r of
              None \<Rightarrow> Inr ?s4
            | Some v \<Rightarrow> g_signal_emit_notify call target property (stored target ?ob4 property ps v ?s4))"
    unfolding flds(2) ev4 acc4 expression_bind.select_convs nm .
  have res': "gtk_expression_bind call self target property this s
                = and_then (gtk_expression_bind_notify call ?b ?s4) (\<lambda>s'. Inr (Some ?w, s'))"
    using a res b3 ob3(1)
    by (simp add: gtk_expression_bind_def Let_def and_then_def del: One_nat_def)
  have fail: "gtk_expression_bind call self target property this s = Inr (Some ?w, ?s4)"
    if "\<not> ret ?r"
    using res' eff that by (simp add: accepted_value_def and_then_def)
  have post: "case accepted_value s ps ?r of
              None \<Rightarrow>
                gtk_expression_bind call self target property this s = Inr (Some ?w, ?s4)
            | Some v \<Rightarrow>
                gtk_expression_bind call self target property this s
                  = and_then
                      (g_signal_emit_notify call target property
                         (stored target ?ob4 property ps v ?s4))
                      (\<lambda>s'. Inr (Some ?w, s'))
                \<and> g_object_get_property (stored target ?ob4 property ps v ?s4) target property
                    = Some v
                \<and> (notify_handlers ?s4 target property = [] \<longrightarrow>
                     gtk_expression_bind call self target property this s
                       = Inr (Some ?w, stored target ?ob4 property ps v ?s4))"
  proof (cases "accepted_value s ps ?r")
    case None
    then show ?thesis using res' eff by (simp add: and_then_def)
  next
    case (Some v)
    have "notify_handlers ?s4 target property = [] \<Longrightarrow>
            g_signal_emit_notify call target property (stored target ?ob4 property ps v ?s4)
              = Inr (stored target ?ob4 property ps v ?s4)"
      by (rule emit_without_handlers) simp
    then show ?thesis
      using Some res' eff by (simp add: stored_property and_then_def)
  qed
  show "\<exists>s4 watch ob4.
         watches s4 (Suc (heap_top s)) = Some watch
         \<and> w_notify watch = Bind_notify (heap_top s)
         \<and> w_expression watch = Some self \<and> w_this watch = this
         \<and> binds s4 (heap_top s)
             = Some \<lparr>b_watch = Some (Suc (heap_top s)), b_target = Some target, b_pspec = ps\<rparr>
         \<and> objects s4 target = Some ob4 \<and> g_properties ob4 = g_properties ob
         \<and> log s4 = log s
         \<and> (\<forall>p nm. g_object_get_property s4 p nm = g_object_get_property s p nm)
         \<and> gtk_expression_evaluate s4 self this = gtk_expression_evaluate s self this
         \<and> gtk_expression_bind call self target property this s
             = and_then (gtk_expression_bind_notify call (heap_top s) s4)
                 (\<lambda>s'. Inr (Some (Suc (heap_top s)), s'))
         \<and> (\<not> ret (gtk_expression_evaluate s self this) \<longrightarrow>
              gtk_expression_bind call self target property this s
                = Inr (Some (Suc (heap_top s)), s4))
         \<and> (case accepted_value s ps (gtk_expression_evaluate s self this) of
              None \<Rightarrow>
                gtk_expression_bind call self target property this s
                  = Inr (Some (Suc (heap_top s)), s4)
            | Some v \<Rightarrow>
                gtk_expression_bind call self target property this s
                  = and_then
                      (g_signal_emit_notify call target property
                         (stored target ob4 property ps v s4))
                      (\<lambda>s'. Inr (Some (Suc (heap_top s)), s'))
                \<and> g_object_get_property (stored target ob4 property ps v s4) target property
                    = Some v
                \<and> (notify_handlers s4 target property = [] \<longrightarrow>
                     gtk_expression_bind call self target property this s
                       = Inr (Some (Suc (heap_top s)), stored target ob4 property ps v s4)))"
    apply (rule exI [where x = ?s4])
    apply (rule exI [where x = watch])
    apply (rule exI [where x = ?ob4])
    apply (intro conjI)
    using w4 flds b4 o4 p4 log4 get4 ev4 res' fail post by blast+
qed

lemmas bind_defs =
  gtk_expression_bind_def gtk_expression_bind_notify_def g_object_set_property_def
  gtk_expression_bind_free_def invalidate_binds_def g_value_transform_def
  g_param_value_validate_def g_signal_emit_notify_def notify_handlers_def stored_def
  value_transform_int_string_def G_TYPE_INT_def G_TYPE_STRING_def

theorem bind_writes_only_on_success_witness:
  "(\<exists>s1. gtk_expression_bind (invoke (Suc 0)) (Property None width_pspec) 2 ''label'' (Some 1)
            example_state = Inr (Some 11, s1)
      \<and> g_object_get_property s1 2 ''label'' = Some (GV_String ''42'')
      \<and> log s1 = [Property_notify 2 ''label'']
      \<and> (\<exists>s2. g_object_set_property (invoke (Suc (Suc (Suc 0)))) 1 ''width'' (Some (GV_Int 99)) s1
                 = Inr s2
            \<and> g_object_get_property s2 1 ''width'' = Some (GV_Int 99)
            \<and> g_object_get_property s2 2 ''label'' = Some (GV_String ''99'')
            \<and> log s2 = [Property_notify 2 ''label'', Property_notify 1 ''width'',
                        Property_notify 2 ''label''])
      \<and> (\<exists>s3. g_object_set_property (invoke (Suc (Suc (Suc 0)))) 1 ''width''
                 (Some (GV_Int 10001)) s1 = Inr s3
            \<and> g_object_get_property s3 1 ''width'' = Some (GV_Int 42)
            \<and> g_object_get_property s3 2 ''label'' = Some (GV_String ''42'')
            \<and> log s3 = [Property_notify 2 ''label''])
      \<and> (\<exists>s5. g_object_destroy (invoke (Suc 0)) 1 s1 = Inr s5
            \<and> g_object_get_property s5 2 ''label'' = Some (GV_String ''42'')
            \<and> binds s5 10 = None \<and> watches s5 11 = None))
   \<and> (\<exists>s4. gtk_expression_bind (invoke (Suc 0)) (Property None width_pspec) 2 ''label'' None
            example_state = Inr (Some 11, s4)
      \<and> g_object_get_property s4 2 ''label'' = Some (GV_String ''old'')
      \<and> log s4 = [])
   \<and> (\<exists>s6. gtk_expression_bind (invoke (Suc 0)) (Constant (GV_Object 300 (Some 3))) 2 ''label''
            None example_state = Inr (Some 11, s6)
      \<and> g_object_get_property s6 2 ''label'' = Some (GV_String ''old'')
      \<and> log s6 = [])
   \<and> (\<exists>s7. gtk_expression_bind (invoke (Suc 0)) (Constant (GV_String ''7'')) 1 ''width''
            None example_state = Inr (Some 11, s7)
      \<and> g_object_get_property s7 1 ''width'' = Some (GV_Int 42)
      \<and> log s7 = [])
   \<and> (\<exists>s8. gtk_expression_bind (invoke (Suc 0)) (Constant (GV_Int (- 5))) 2 ''label''
            None example_state = Inr (Some 11, s8)
      \<and> g_object_get_property s8 2 ''label'' = Some (GV_String ''-5''))"
  using bind_writes_only_on_success
          [where s = example_state and target = 2 and property = "''label''"
             and ps = label_pspec and old = "GV_String ''old''" and this = "Some 1"
             and self = "Property None width_pspec" and call = "invoke (Suc 0)"
             and ob = "\<lparr>g_type = 200,
                        g_properties = [''label'' \<mapsto> (label_pspec, GV_String ''old'')],
                        g_weak_refs = [], g_binds = []\<rparr>"]
  by (simp add: bind_defs watch_defs unwatch_defs callback_defs example_defs decimal.simps)

section \<open>Further properties\<close>

text \<open>
  The buffer is large enough. For a valid \<open>this\<close> and an expression whose object
  expressions are allocated, \<^verbatim>\<open>gtk_expression_watch\<close> succeeds: no sub-watch is
  written past the \<^verbatim>\<open>gtk_expression_watch_size (self)\<close> bytes allocated for
  \<^verbatim>\<open>watch->sub\<close>. The new watch is watching, holds one reference, and
  \<^verbatim>\<open>gtk_expression_watch_unwatch\<close> on it succeeds and frees it.
\<close>

theorem watch_fits_its_buffer:
  assumes "this_is_valid s this" and "allocated s e" and "destroy_ok s d"
  shows "\<exists>s' s'' watch.
           gtk_expression_watch e this n d s = Inr (Some (heap_top s), s')
           \<and> watches s' (heap_top s) = Some watch
           \<and> gtk_expression_watch_is_watching watch
           \<and> w_sub_size watch = gtk_expression_watch_size e
           \<and> gtk_expression_watch_unwatch (heap_top s) s' = Inr s''
           \<and> watches s'' (heap_top s) = None
           \<and> log s'' = log s @ destroy_log d"
proof -
  from gtk_expression_watch_ok [OF assms(1,2), of n d] obtain s' watch where
    res: "gtk_expression_watch e this n d s = Inr (Some (heap_top s), s')"
    and w: "watches s' (heap_top s) = Some watch"
    and hd: "header watch =
               \<lparr>w_expression = Some e, w_this = this, w_user_destroy = d, w_notify = n,
                w_sub = Map.empty, w_sub_size = gtk_expression_watch_size e, w_ref_count = 1\<rparr>"
    and inst: "installed s' e (heap_top s) 0" and alloc: "allocated s' e"
    and sv: "same_values s s'" and b: "binds s' = binds s" and lg: "log s' = log s"
    by blast
  from hd have flds: "w_expression watch = Some e" "w_user_destroy watch = d"
      "w_sub_size watch = gtk_expression_watch_size e" "w_ref_count watch = 1"
    by (auto simp: header_def dest: arg_cong [where f = w_expression]
          arg_cong [where f = w_user_destroy] arg_cong [where f = w_sub_size]
          arg_cong [where f = w_ref_count])
  have "destroy_ok s' d"
    using assms(3) destroy_ok_cong [OF b same_values_object(1) [OF sv]] by simp
  then have d': "destroy_ok s' (w_user_destroy watch)" using flds by simp
  have sz: "gtk_expression_watch_size e \<le> w_sub_size watch" using flds by simp
  from unwatch_ok [OF w flds(1) inst alloc sz d'] obtain s'' where
    "gtk_expression_watch_unwatch (heap_top s) s' = Inr s''"
    "watches s'' (heap_top s) = None"
    "log s'' = log s' @ destroy_log (w_user_destroy watch)"
    using flds(4) by auto
  then show ?thesis
    using res w flds lg by (auto simp: gtk_expression_watch_is_watching_def)
qed

theorem watch_fits_its_buffer_witness:
  "\<exists>s' s''.
     gtk_expression_watch
       (Closure 64 7 [Property (Some (Closure 100 7 [])) width_pspec, Constant (GV_Int 1),
                      Property None width_pspec])
       (Some 1) (User_notify 5) (Some (User_destroy 6)) example_state = Inr (Some 10, s')
     \<and> map_option w_sub_size (watches s' 10) = Some 112
     \<and> map_option (\<lambda>watch. map (\<lambda>off. off \<in> dom (w_sub watch)) [0, 16, 72])
         (watches s' 10) = Some [True, True, True]
     \<and> gtk_expression_watch_unwatch 10 s' = Inr s''
     \<and> watches s'' 10 = None \<and> log s'' = [Destroyed 6]"
  using watch_fits_its_buffer
          [where s = example_state and this = "Some 1" and n = "User_notify 5"
             and d = "Some (User_destroy 6)"
             and e = "Closure 64 7 [Property (Some (Closure 100 7 [])) width_pspec,
                                    Constant (GV_Int 1), Property None width_pspec]"]
  by (simp add: watch_defs unwatch_defs callback_defs example_defs)

text \<open>
  Evaluation never initialises the output half-way. When
  \<^verbatim>\<open>gtk_expression_evaluate\<close> returns \<^verbatim>\<open>FALSE\<close> the value is left empty, and in every
  case the values it initialised on the way are released again: one value stays
  initialised when the output is set, none otherwise.
\<close>

theorem evaluate_leaves_no_value_behind:
  "(\<not> ret (gtk_expression_evaluate s e this) \<longrightarrow>
      val (gtk_expression_evaluate s e this) = None)
   \<and> values_held (trace (gtk_expression_evaluate s e this))
       = (if val (gtk_expression_evaluate s e this) = None then 0 else 1)"
  using evaluate_failure_leaves_value_empty [of s e this] evaluate_values_held(1) [of s e this]
  by simp

theorem evaluate_leaves_no_value_behind_witness:
  "\<not> ret (gtk_expression_evaluate example_state
            (Property (Some (Constant (GV_Object 300 (Some 3)))) width_pspec) None)
   \<and> val (gtk_expression_evaluate example_state
            (Property (Some (Constant (GV_Object 300 (Some 3)))) width_pspec) None) = None
   \<and> trace (gtk_expression_evaluate example_state
            (Property (Some (Constant (GV_Object 300 (Some 3)))) width_pspec) None)
       = [Value_init, Object_ref 3, Value_unset (GV_Object 300 (Some 3)), Object_unref 3]
   \<and> values_held [Value_init, Object_ref 3, Value_unset (GV_Object 300 (Some 3)),
                   Object_unref 3] = 0"
  using evaluate_leaves_no_value_behind
          [of example_state "Property (Some (Constant (GV_Object 300 (Some 3)))) width_pspec"
              None]
  by (simp add: example_defs)

end
